theory Spec2Isabelle
  imports Complex_Main "HOL-Library.FSet" "HOL-Library.Char_ord" "HOL-Library.List_Lexorder"
begin

section \<open>Conventions of the embedding\<close>

text \<open>
  The development embeds three modules of the backend:
  \<^item> \<^verbatim>\<open>backend/error_handler.py\<close>: error classification, the retry table, the back-off
    delay, the circuit breaker and the retrying executor;
  \<^item> \<^verbatim>\<open>backend/websocket_manager.py\<close>: the connection table, the session index and the
    broadcast \<^verbatim>\<open>send_event\<close>;
  \<^item> \<^verbatim>\<open>backend/models.py\<close>: the stream event and its payload classes.

  Python \<^verbatim>\<open>int\<close> is \<open>int\<close>. A \<^verbatim>\<open>float\<close> is idealised as a \<open>real\<close>: rounding is not
  modelled; overflow is, where Python raises on it (\<open>float_pow\<close> below). A \<^verbatim>\<open>datetime\<close> is a \<open>real\<close>, the seconds since a fixed
  epoch, so that \<^verbatim>\<open>(a - b).total_seconds()\<close> is \<open>a - b\<close>. A \<^verbatim>\<open>str\<close> is a \<open>string\<close>.
  A raised exception is the \<open>Inl\<close> of a sum. Calls to the logger and to \<^verbatim>\<open>print\<close> have no
  effect on any value computed here and are left out.
\<close>

type_synonym datetime = real

datatype py_exception =
    Exception string      \<comment> \<open>an \<^verbatim>\<open>Exception\<close> whose \<^verbatim>\<open>str()\<close> is the given text\<close>
  | TypeError
  | ZeroDivisionError
  | OverflowError

section \<open>error_handler.py\<close>

subsection \<open>ErrorType\<close>

datatype ErrorType =
    RATE_LIMIT
  | TIMEOUT
  | AUTH_ERROR
  | SERVICE_ERROR
  | NETWORK_ERROR
  | VALIDATION_ERROR
  | UNKNOWN_ERROR

fun ErrorType_value :: "ErrorType \<Rightarrow> string" where
  "ErrorType_value RATE_LIMIT = ''rate_limit''"
| "ErrorType_value TIMEOUT = ''timeout''"
| "ErrorType_value AUTH_ERROR = ''auth_error''"
| "ErrorType_value SERVICE_ERROR = ''service_error''"
| "ErrorType_value NETWORK_ERROR = ''network_error''"
| "ErrorType_value VALIDATION_ERROR = ''validation_error''"
| "ErrorType_value UNKNOWN_ERROR = ''unknown_error''"

subsection \<open>RetryStrategy\<close>

record RetryStrategy =
  max_retries :: int
  base_delay :: real
  max_delay :: real
  exponential_base :: real
  jitter :: bool

text \<open>
  The constructor, with its keyword defaults \<^verbatim>\<open>max_retries=3, base_delay=1.0,
  max_delay=60.0, exponential_base=2.0, jitter=True\<close>: an argument left out is \<open>None\<close>.
\<close>

definition RetryStrategy_init ::
  "int option \<Rightarrow> real option \<Rightarrow> real option \<Rightarrow> real option \<Rightarrow> bool option \<Rightarrow> RetryStrategy" where
  "RetryStrategy_init mr bd md eb ji =
     \<lparr> max_retries = (case mr of None \<Rightarrow> 3 | Some v \<Rightarrow> v),
       base_delay = (case bd of None \<Rightarrow> 1 | Some v \<Rightarrow> v),
       max_delay = (case md of None \<Rightarrow> 60 | Some v \<Rightarrow> v),
       exponential_base = (case eb of None \<Rightarrow> 2 | Some v \<Rightarrow> v),
       jitter = (case ji of None \<Rightarrow> True | Some v \<Rightarrow> v) \<rparr>"

text \<open>
  \<^verbatim>\<open>x ** n\<close> on a float and an int. The largest float is \<open>2 ^ 1024 - 2 ^ 971\<close>, and a
  value rounds to an infinity when its magnitude is at least \<open>2 ^ 1024 - 2 ^ 970\<close>,
  halfway between the largest float and \<open>2 ^ 1024\<close>. Python first converts \<open>n\<close> to a
  float and raises \<^verbatim>\<open>OverflowError\<close> if that overflows; it raises
  \<^verbatim>\<open>ZeroDivisionError\<close> for \<open>x = 0\<close> and \<open>n < 0\<close>; and it raises \<^verbatim>\<open>OverflowError\<close>
  when the power overflows.
\<close>

definition float_overflows :: "real \<Rightarrow> bool" where
  "float_overflows x \<longleftrightarrow> 2 ^ 1024 - 2 ^ 970 \<le> \<bar>x\<bar>"

definition float_pow :: "real \<Rightarrow> int \<Rightarrow> py_exception + real" where
  "float_pow x n =
     (if float_overflows (of_int n) then Inl OverflowError
      else if x = 0 \<and> n < 0 then Inl ZeroDivisionError
      else if float_overflows (x powi n) then Inl OverflowError
      else Inr (x powi n))"

text \<open>
  \<^verbatim>\<open>get_delay(attempt)\<close>. The second argument is the value that \<^verbatim>\<open>random.random()\<close>
  returns, a number of the interval \<open>[0, 1)\<close>; it is read only when \<open>jitter\<close> is set.
  A product that overflows is an infinity in Python and no error; the model keeps the
  exact product, which lies on the same side of \<open>max_delay\<close>.
\<close>

definition get_delay :: "RetryStrategy \<Rightarrow> real \<Rightarrow> int \<Rightarrow> py_exception + real" where
  "get_delay self rnd attempt =
     (case float_pow (exponential_base self) attempt of
        Inl e \<Rightarrow> Inl e
      | Inr factor \<Rightarrow>
          let delay = base_delay self * factor;
              delay = min delay (max_delay self)
          in Inr (if jitter self then delay * (0.5 + rnd * 0.5) else delay))"

subsection \<open>CircuitBreaker\<close>

text \<open>
  The field \<^verbatim>\<open>expected_exception\<close> is stored by the constructor and never read; it is
  left out. \<open>state\<close> is the Python string, one of \<^verbatim>\<open>"closed"\<close>, \<^verbatim>\<open>"open"\<close> and
  \<^verbatim>\<open>"half-open"\<close>.
\<close>

record CircuitBreaker =
  failure_threshold :: int
  recovery_timeout :: real
  failure_count :: int
  last_failure_time :: "datetime option"
  state :: string

definition CircuitBreaker_init :: "int option \<Rightarrow> real option \<Rightarrow> CircuitBreaker" where
  "CircuitBreaker_init ft rt =
     \<lparr> failure_threshold = (case ft of None \<Rightarrow> 5 | Some v \<Rightarrow> v),
       recovery_timeout = (case rt of None \<Rightarrow> 60 | Some v \<Rightarrow> v),
       failure_count = 0,
       last_failure_time = None,
       state = ''closed'' \<rparr>"

text \<open>
  \<^verbatim>\<open>can_execute()\<close> at the time \<open>now\<close> that \<^verbatim>\<open>datetime.now()\<close> returns. It gives the
  answer and the breaker, which the \<^verbatim>\<open>open\<close> branch may have changed. Subtracting
  \<^verbatim>\<open>None\<close> from a \<^verbatim>\<open>datetime\<close> raises \<^verbatim>\<open>TypeError\<close>.
\<close>

definition can_execute :: "datetime \<Rightarrow> CircuitBreaker \<Rightarrow> py_exception + (bool \<times> CircuitBreaker)" where
  "can_execute now self =
     (if state self = ''closed'' then Inr (True, self)
      else if state self = ''open'' then
        (case last_failure_time self of
           None \<Rightarrow> Inl TypeError
         | Some t \<Rightarrow>
             if now - t > recovery_timeout self
             then Inr (True, self\<lparr>state := ''half-open''\<rparr>)
             else Inr (False, self))
      else Inr (True, self))"

definition record_success :: "CircuitBreaker \<Rightarrow> CircuitBreaker" where
  "record_success self = self\<lparr>failure_count := 0, state := ''closed''\<rparr>"

definition record_failure :: "datetime \<Rightarrow> CircuitBreaker \<Rightarrow> CircuitBreaker" where
  "record_failure now self =
     (let self = self\<lparr>failure_count := failure_count self + 1, last_failure_time := Some now\<rparr>
      in if failure_count self \<ge> failure_threshold self then self\<lparr>state := ''open''\<rparr> else self)"

subsection \<open>ErrorHandler: the retry table and the classifier\<close>

fun retry_strategies :: "ErrorType \<Rightarrow> RetryStrategy" where
  "retry_strategies RATE_LIMIT = RetryStrategy_init (Some 5) (Some 2) (Some 120) None None"
| "retry_strategies TIMEOUT = RetryStrategy_init (Some 3) (Some 1) (Some 30) None None"
| "retry_strategies SERVICE_ERROR = RetryStrategy_init (Some 3) (Some 5) (Some 60) None None"
| "retry_strategies NETWORK_ERROR = RetryStrategy_init (Some 4) (Some 1) (Some 30) None None"
| "retry_strategies AUTH_ERROR = RetryStrategy_init (Some 0) None None None None"
| "retry_strategies VALIDATION_ERROR = RetryStrategy_init (Some 0) None None None None"
| "retry_strategies UNKNOWN_ERROR = RetryStrategy_init (Some 2) (Some 2) (Some 30) None None"

text \<open>
  \<^verbatim>\<open>str.lower()\<close> and the test \<^verbatim>\<open>needle in haystack\<close>. A \<open>char\<close> is one of 256 code
  points; only \<open>A\<close> to \<open>Z\<close> are mapped, which decides every test below as Python does
  on such a text, since each needle is made of ASCII letters and a space.
\<close>

definition lower_char :: "char \<Rightarrow> char" where
  "lower_char c =
     (if 65 \<le> (of_char c :: nat) \<and> (of_char c :: nat) \<le> 90
      then char_of ((of_char c :: nat) + 32) else c)"

definition lower :: "string \<Rightarrow> string" where
  "lower s = map lower_char s"

fun contains :: "string \<Rightarrow> string \<Rightarrow> bool" where
  "contains needle [] = (needle = [])"
| "contains needle (c # cs) = (take (length needle) (c # cs) = needle \<or> contains needle cs)"

fun str :: "py_exception \<Rightarrow> string" where
  "str (Exception msg) = msg"
| "str TypeError = []"
| "str ZeroDivisionError = []"
| "str OverflowError = []"

text \<open>
  \<^verbatim>\<open>classify_error(error, status_code=None)\<close>. \<^verbatim>\<open>if status_code:\<close> is false for
  \<^verbatim>\<open>None\<close> and for \<open>0\<close>; a status code below 400 falls through to the text of the error.
\<close>

definition classify_error :: "py_exception \<Rightarrow> int option \<Rightarrow> ErrorType" where
  "classify_error error status_code =
     (let by_text =
        (let error_str = lower (str error) in
         if contains ''timeout'' error_str \<or> contains ''timed out'' error_str then TIMEOUT
         else if contains ''rate limit'' error_str \<or> contains ''too many requests'' error_str then RATE_LIMIT
         else if contains ''auth'' error_str \<or> contains ''unauthorized'' error_str then AUTH_ERROR
         else if contains ''network'' error_str \<or> contains ''connection'' error_str then NETWORK_ERROR
         else UNKNOWN_ERROR)
      in case status_code of
           None \<Rightarrow> by_text
         | Some code \<Rightarrow>
             if code \<noteq> 0 then
               (if code = 429 then RATE_LIMIT
                else if code = 401 \<or> code = 403 then AUTH_ERROR
                else if code \<ge> 500 then SERVICE_ERROR
                else if code \<ge> 400 then VALIDATION_ERROR
                else by_text)
             else by_text)"

subsection \<open>ErrorHandler: circuit breakers per provider\<close>

text \<open>
  Of the fields of \<^verbatim>\<open>ErrorHandler\<close>, \<^verbatim>\<open>retry_strategies\<close> is the constant table above
  and \<^verbatim>\<open>circuit_breakers\<close> is the only one that changes. A breaker is a shared object:
  the executor mutates the one the dictionary holds, so the model writes it back with
  \<open>put_circuit_breaker\<close>.
\<close>

record ErrorHandler =
  circuit_breakers :: "string \<rightharpoonup> CircuitBreaker"

definition ErrorHandler_init :: ErrorHandler where
  "ErrorHandler_init = \<lparr> circuit_breakers = Map.empty \<rparr>"

definition put_circuit_breaker :: "ErrorHandler \<Rightarrow> string \<Rightarrow> CircuitBreaker \<Rightarrow> ErrorHandler" where
  "put_circuit_breaker self provider cb =
     self\<lparr>circuit_breakers := (circuit_breakers self)(provider \<mapsto> cb)\<rparr>"

definition get_circuit_breaker :: "ErrorHandler \<Rightarrow> string \<Rightarrow> CircuitBreaker \<times> ErrorHandler" where
  "get_circuit_breaker self provider =
     (case circuit_breakers self provider of
        None \<Rightarrow> (CircuitBreaker_init None None,
                 put_circuit_breaker self provider (CircuitBreaker_init None None))
      | Some cb \<Rightarrow> (cb, self))"

subsection \<open>ErrorHandler: execute_with_retry\<close>

text \<open>
  The awaited \<^verbatim>\<open>operation\<close> is a callable that may answer differently each time. It is
  a function of the number of earlier invocations in this call, giving the seconds the
  await takes and its outcome. \<open>rnd k\<close> is the value of \<^verbatim>\<open>random.random()\<close> drawn for the
  delay after \<open>k\<close> earlier sleeps. A \<open>trace\<close> records what the call did: the clock
  (\<^verbatim>\<open>datetime.now()\<close>), how many times the operation was invoked and the arguments of
  \<^verbatim>\<open>asyncio.sleep\<close> in order. Sleeping a negative time returns at once.
\<close>

datatype 'a outcome = Returns 'a | Raises py_exception

record trace =
  clock :: datetime
  invocations :: nat
  sleeps :: "real list"

text \<open>
  One run of the \<^verbatim>\<open>for\<close> loop ends by \<^verbatim>\<open>return result\<close>, by an exception that
  escapes the \<^verbatim>\<open>except\<close> block, or by leaving the loop (\<^verbatim>\<open>break\<close>, or the range is
  used up), after which the code below the loop runs.
\<close>

datatype 'a loop_exit = Returned 'a | Escaped py_exception | Fallthrough

definition range_upto :: "int \<Rightarrow> int list" where
  "range_upto n = map int [0 ..< nat n]"

fun retry_loop ::
  "(nat \<Rightarrow> real \<times> 'a outcome) \<Rightarrow> (nat \<Rightarrow> real) \<Rightarrow> int list \<Rightarrow>
   CircuitBreaker \<Rightarrow> py_exception option \<Rightarrow> trace \<Rightarrow>
   'a loop_exit \<times> CircuitBreaker \<times> py_exception option \<times> trace" where
  "retry_loop operation rnd [] circuit_breaker last_error w =
     (Fallthrough, circuit_breaker, last_error, w)"
| "retry_loop operation rnd (attempt # rest) circuit_breaker last_error w =
     (let w1 = w\<lparr>clock := clock w + fst (operation (invocations w)),
                 invocations := Suc (invocations w)\<rparr>
      in case snd (operation (invocations w)) of
           Returns result \<Rightarrow> (Returned result, record_success circuit_breaker, last_error, w1)
         | Raises error \<Rightarrow>
             (let error_type = classify_error error None;
                  retry_strategy = retry_strategies error_type
              in if attempt \<ge> max_retries retry_strategy
                 then (Fallthrough, record_failure (clock w1) circuit_breaker, Some error, w1)
                 else
                   (case get_delay retry_strategy (rnd (length (sleeps w1))) attempt of
                      Inl e \<Rightarrow> (Escaped e, circuit_breaker, Some error, w1)
                    | Inr delay \<Rightarrow>
                        retry_loop operation rnd rest circuit_breaker (Some error)
                          (w1\<lparr>clock := clock w1 + max 0 delay,
                              sleeps := sleeps w1 @ [delay]\<rparr>))))"

text \<open>
  \<^verbatim>\<open>execute_with_retry(operation, provider, pane_id, session_id, context)\<close>, called at
  the time \<open>now\<close>. The last three arguments are only logged. The result is what the call
  returns or raises, the handler afterwards and the trace. \<^verbatim>\<open>raise last_error\<close> with
  \<^verbatim>\<open>None\<close> raises \<^verbatim>\<open>TypeError\<close>.
\<close>

definition circuit_open_message :: "string \<Rightarrow> string" where
  "circuit_open_message provider = ''Circuit breaker open for provider '' @ provider"

definition execute_with_retry ::
  "ErrorHandler \<Rightarrow> (nat \<Rightarrow> real \<times> 'a outcome) \<Rightarrow> (nat \<Rightarrow> real) \<Rightarrow> string \<Rightarrow> datetime \<Rightarrow>
   (py_exception + 'a) \<times> ErrorHandler \<times> trace" where
  "execute_with_retry self operation rnd provider now =
     (let (circuit_breaker, self) = get_circuit_breaker self provider;
          w = \<lparr>clock = now, invocations = 0, sleeps = []\<rparr>
      in case can_execute now circuit_breaker of
           Inl e \<Rightarrow> (Inl e, self, w)
         | Inr (allowed, circuit_breaker) \<Rightarrow>
             if \<not> allowed
             then (Inl (Exception (circuit_open_message provider)),
                   put_circuit_breaker self provider circuit_breaker, w)
             else
               (case retry_loop operation rnd
                       (range_upto (max_retries (retry_strategies UNKNOWN_ERROR) + 1))
                       circuit_breaker None w of
                  (Returned result, circuit_breaker, last_error, w) \<Rightarrow>
                    (Inr result, put_circuit_breaker self provider circuit_breaker, w)
                | (Escaped e, circuit_breaker, last_error, w) \<Rightarrow>
                    (Inl e, put_circuit_breaker self provider circuit_breaker, w)
                | (Fallthrough, circuit_breaker, last_error, w) \<Rightarrow>
                    (case last_error of None \<Rightarrow> Inl TypeError | Some error \<Rightarrow> Inl error,
                     put_circuit_breaker self provider (record_failure (clock w) circuit_breaker),
                     w)))"

text \<open>
  The breaker that \<open>get_circuit_breaker\<close> hands out for a provider.
\<close>

definition breaker_of :: "ErrorHandler \<Rightarrow> string \<Rightarrow> CircuitBreaker" where
  "breaker_of self provider = fst (get_circuit_breaker self provider)"

subsection \<open>A run of failing calls\<close>

text \<open>
  Inputs for the concrete runs below: an operation that raises a timeout at once every
  time it is awaited, a random source that always draws \<open>0\<close>, and the handler after
  \<open>n\<close> calls of that operation for the provider \<^verbatim>\<open>P\<close>, made at the times
  \<open>0, 10, 20, \<dots>\<close> on a fresh handler.
\<close>

definition always_timeout :: "nat \<Rightarrow> real \<times> unit outcome" where
  "always_timeout k = (0, Raises (Exception ''timeout''))"

definition lowest_draw :: "nat \<Rightarrow> real" where
  "lowest_draw k = 0"

fun after_timeouts :: "nat \<Rightarrow> ErrorHandler" where
  "after_timeouts 0 = ErrorHandler_init"
| "after_timeouts (Suc n) =
     fst (snd (execute_with_retry (after_timeouts n) always_timeout lowest_draw ''P''
                 (10 * real n)))"

section \<open>models.py: the stream event\<close>

text \<open>
  The five payload classes, each with its fields in the order of the class body:
  \<^verbatim>\<open>TokenData(token, position)\<close>, \<^verbatim>\<open>FinalData(content, finish_reason, message_id)\<close>,
  \<^verbatim>\<open>MeterData(tokens_used, cost, latency)\<close>, \<^verbatim>\<open>ErrorData(message, code, retryable)\<close>
  and \<^verbatim>\<open>StatusData(status, message)\<close>. An \<^verbatim>\<open>Optional[str]\<close> is a \<open>string option\<close>.
\<close>

datatype payload =
    TokenData string int
  | FinalData string string "string option"
  | MeterData int real int
  | ErrorData string "string option" bool
  | StatusData string "string option"

record StreamEvent =
  type :: string
  pane_id :: string
  data :: payload
  timestamp :: datetime

text \<open>
  The constructor validates \<open>type\<close> against its \<^verbatim>\<open>Literal\<close>; pydantic raises a
  \<^verbatim>\<open>ValidationError\<close>, an \<^verbatim>\<open>Exception\<close>, otherwise. Nothing relates \<open>type\<close> to the
  class of \<open>data\<close>: a member of the union is accepted as it is. \<open>now\<close> is the default
  of \<open>timestamp\<close>.
\<close>

definition StreamEvent_init ::
  "string \<Rightarrow> string \<Rightarrow> payload \<Rightarrow> datetime \<Rightarrow> py_exception + StreamEvent" where
  "StreamEvent_init ty pane d now =
     (if ty \<in> set [''token'', ''final'', ''meter'', ''error'', ''status'']
      then Inr \<lparr> type = ty, pane_id = pane, data = d, timestamp = now \<rparr>
      else Inl (Exception ''validation error for StreamEvent''))"

text \<open>
  \<^verbatim>\<open>model_dump_json()\<close> writes the fields of a model in the order of their declaration, a
  nested model as an object, \<^verbatim>\<open>None\<close> as \<^verbatim>\<open>null\<close> and a \<^verbatim>\<open>datetime\<close> as its ISO text.
  The model gives the JSON value; rendering it to text is left out.
\<close>

datatype json =
    JNull
  | JBool bool
  | JInt int
  | JFloat real
  | JStr string
  | JDatetime datetime
  | JObject "(string \<times> json) list"

definition optional_str :: "string option \<Rightarrow> json" where
  "optional_str v = (case v of None \<Rightarrow> JNull | Some s \<Rightarrow> JStr s)"

fun payload_dump :: "payload \<Rightarrow> json" where
  "payload_dump (TokenData token position) =
     JObject [(''token'', JStr token), (''position'', JInt position)]"
| "payload_dump (FinalData content finish_reason message_id) =
     JObject [(''content'', JStr content), (''finish_reason'', JStr finish_reason),
              (''message_id'', optional_str message_id)]"
| "payload_dump (MeterData tokens_used cost latency) =
     JObject [(''tokens_used'', JInt tokens_used), (''cost'', JFloat cost),
              (''latency'', JInt latency)]"
| "payload_dump (ErrorData message code retryable) =
     JObject [(''message'', JStr message), (''code'', optional_str code),
              (''retryable'', JBool retryable)]"
| "payload_dump (StatusData status message) =
     JObject [(''status'', JStr status), (''message'', optional_str message)]"

definition model_dump_json :: "StreamEvent \<Rightarrow> json" where
  "model_dump_json event =
     JObject [(''type'', JStr (type event)), (''pane_id'', JStr (pane_id event)),
              (''data'', payload_dump (data event)),
              (''timestamp'', JDatetime (timestamp event))]"

text \<open>The field names of a JSON object, in order, and the value of one field.\<close>

fun keys :: "json \<Rightarrow> string list" where
  "keys (JObject members) = map fst members"
| "keys _ = []"

fun field :: "string \<Rightarrow> json \<Rightarrow> json option" where
  "field name (JObject members) = map_of members name"
| "field name _ = None"

section \<open>websocket_manager.py\<close>

subsection \<open>ConnectionInfo and the manager\<close>

text \<open>
  The transport handle is opaque, of a type \<open>'ws\<close>. What \<^verbatim>\<open>websocket.send_text\<close> does
  with a text is given by the environment: it returns, raises \<^verbatim>\<open>WebSocketDisconnect\<close>
  or raises another \<^verbatim>\<open>Exception\<close>.
\<close>

datatype send_result = Sent | WebSocketDisconnect | SendError

record 'ws ConnectionInfo =
  websocket :: 'ws
  session_id :: string
  connected_at :: datetime
  last_ping :: datetime
  failed_sends :: int
  is_alive :: bool

definition ConnectionInfo_init :: "'ws \<Rightarrow> string \<Rightarrow> datetime \<Rightarrow> 'ws ConnectionInfo" where
  "ConnectionInfo_init ws sid now =
     \<lparr> websocket = ws, session_id = sid, connected_at = now, last_ping = now,
       failed_sends = 0, is_alive = True \<rparr>"

text \<open>
  \<open>connections\<close> is the connection table and \<open>session_connections\<close> the session
  index, a dictionary of sets of connection ids.
\<close>

record 'ws EnhancedConnectionManager =
  connections :: "string \<rightharpoonup> 'ws ConnectionInfo"
  session_connections :: "string \<rightharpoonup> string fset"
  heartbeat_interval :: int
  max_failed_sends :: int
  cleanup_interval :: int
  background_tasks_started :: bool

definition EnhancedConnectionManager_init :: "'ws EnhancedConnectionManager" where
  "EnhancedConnectionManager_init =
     \<lparr> connections = Map.empty, session_connections = Map.empty,
       heartbeat_interval = 30, max_failed_sends = 3, cleanup_interval = 300,
       background_tasks_started = False \<rparr>"

subsection \<open>connect and disconnect\<close>

text \<open>
  \<^verbatim>\<open>connect(websocket, session_id)\<close>. \<open>accepted\<close> is \<open>None\<close> when
  \<^verbatim>\<open>websocket.accept()\<close> returns and the exception it raises otherwise, which
  \<open>connect\<close> logs and raises again. \<open>uuid\<close> is the text of the \<^verbatim>\<open>uuid4()\<close> drawn for
  the connection. The two background tasks are started on the first connection; they
  run beside the operations and are not part of this model, which keeps their flag.
\<close>

definition connect ::
  "'ws EnhancedConnectionManager \<Rightarrow> py_exception option \<Rightarrow> string \<Rightarrow> datetime \<Rightarrow> 'ws \<Rightarrow> string \<Rightarrow>
   (py_exception + string) \<times> 'ws EnhancedConnectionManager" where
  "connect self accepted uuid now ws sid =
     (case accepted of
        Some e \<Rightarrow> (Inl e, self)
      | None \<Rightarrow>
          (let self = self\<lparr>background_tasks_started := True\<rparr>;
               connection_id = uuid;
               connection_info = ConnectionInfo_init ws sid now;
               self = self\<lparr>connections := (connections self)(connection_id \<mapsto> connection_info)\<rparr>;
               self = (if sid \<notin> dom (session_connections self)
                       then self\<lparr>session_connections := (session_connections self)(sid \<mapsto> {||})\<rparr>
                       else self);
               self = self\<lparr>session_connections :=
                        (session_connections self)
                          (sid \<mapsto> finsert connection_id (the (session_connections self sid)))\<rparr>
           in (Inr connection_id, self)))"

text \<open>
  \<^verbatim>\<open>disconnect(connection_id, reason)\<close>; the reason is only logged.
\<close>

definition disconnect :: "'ws EnhancedConnectionManager \<Rightarrow> string \<Rightarrow> 'ws EnhancedConnectionManager" where
  "disconnect self connection_id =
     (case connections self connection_id of
        None \<Rightarrow> self
      | Some connection_info \<Rightarrow>
          (let sid = session_id connection_info;
               self = self\<lparr>connections := (connections self)(connection_id := None)\<rparr>
           in case session_connections self sid of
                None \<Rightarrow> self
              | Some ids \<Rightarrow>
                  (let ids = ids |-| {|connection_id|}
                   in if ids = {||}
                      then self\<lparr>session_connections := (session_connections self)(sid := None)\<rparr>
                      else self\<lparr>session_connections := (session_connections self)(sid \<mapsto> ids)\<rparr>)))"

subsection \<open>send_event\<close>

text \<open>
  The first loop of \<^verbatim>\<open>send_event\<close>, over the connection ids of the session. Its state is
  the connection table, \<^verbatim>\<open>successful_sends\<close> and \<^verbatim>\<open>failed_connections\<close>. The clause for
  \<^verbatim>\<open>WebSocketDisconnect\<close> comes first in the source and leaves the counter alone.
\<close>

fun send_loop ::
  "('ws \<Rightarrow> json \<Rightarrow> send_result) \<Rightarrow> json \<Rightarrow> int \<Rightarrow> string list \<Rightarrow>
   (string \<rightharpoonup> 'ws ConnectionInfo) \<times> int \<times> string list \<Rightarrow>
   (string \<rightharpoonup> 'ws ConnectionInfo) \<times> int \<times> string list" where
  "send_loop send_text event_data limit [] st = st"
| "send_loop send_text event_data limit (connection_id # rest) (conns, successful_sends, failed_connections) =
     (case conns connection_id of
        None \<Rightarrow>
          send_loop send_text event_data limit rest
            (conns, successful_sends, failed_connections @ [connection_id])
      | Some connection_info \<Rightarrow>
          (case send_text (websocket connection_info) event_data of
             Sent \<Rightarrow>
               send_loop send_text event_data limit rest
                 (conns(connection_id \<mapsto> connection_info\<lparr>failed_sends := 0\<rparr>),
                  successful_sends + 1, failed_connections)
           | WebSocketDisconnect \<Rightarrow>
               send_loop send_text event_data limit rest
                 (conns, successful_sends, failed_connections @ [connection_id])
           | SendError \<Rightarrow>
               (let connection_info =
                      connection_info\<lparr>failed_sends := failed_sends connection_info + 1\<rparr>
                in if failed_sends connection_info \<ge> limit
                   then send_loop send_text event_data limit rest
                          (conns(connection_id \<mapsto> connection_info\<lparr>is_alive := False\<rparr>),
                           successful_sends, failed_connections @ [connection_id])
                   else send_loop send_text event_data limit rest
                          (conns(connection_id \<mapsto> connection_info),
                           successful_sends, failed_connections))))"

text \<open>
  \<^verbatim>\<open>send_event(session_id, event)\<close>. Python fixes no order for \<^verbatim>\<open>list(a_set)\<close>; the
  model takes the sorted one. The second loop disconnects the failed connections in the
  order in which they were collected.
\<close>

definition send_event ::
  "'ws EnhancedConnectionManager \<Rightarrow> ('ws \<Rightarrow> json \<Rightarrow> send_result) \<Rightarrow> string \<Rightarrow> StreamEvent \<Rightarrow>
   bool \<times> 'ws EnhancedConnectionManager" where
  "send_event self send_text sid event =
     (case session_connections self sid of
        None \<Rightarrow> (False, self)
      | Some ids \<Rightarrow>
          (let connection_ids = sorted_list_of_fset ids;
               (conns, successful_sends, failed_connections) =
                  send_loop send_text (model_dump_json event) (max_failed_sends self)
                    connection_ids (connections self, 0, []);
               self = self\<lparr>connections := conns\<rparr>;
               self = fold (\<lambda>connection_id self. disconnect self connection_id)
                        failed_connections self
           in (successful_sends > 0, self)))"

subsection \<open>The two invariants of the session index\<close>

text \<open>
  \<open>index_has self sid cid\<close>: the session index lists the connection \<open>cid\<close> under the
  session \<open>sid\<close>. The index is consistent with the table when every id it lists is in
  the table and every id of the table is listed under its own session and no other.
\<close>

definition index_has :: "'ws EnhancedConnectionManager \<Rightarrow> string \<Rightarrow> string \<Rightarrow> bool" where
  "index_has self sid cid =
     (case session_connections self sid of None \<Rightarrow> False | Some ids \<Rightarrow> cid |\<in>| ids)"

definition consistent :: "'ws EnhancedConnectionManager \<Rightarrow> bool" where
  "consistent self \<longleftrightarrow>
     (\<forall>sid cid. index_has self sid cid \<longrightarrow> cid \<in> dom (connections self)) \<and>
     (\<forall>cid connection_info. connections self cid = Some connection_info \<longrightarrow>
        (\<forall>sid. index_has self sid cid \<longleftrightarrow> sid = session_id connection_info))"

definition no_empty_entry :: "'ws EnhancedConnectionManager \<Rightarrow> bool" where
  "no_empty_entry self \<longleftrightarrow> (\<forall>sid. session_connections self sid \<noteq> Some {||})"

text \<open>The second loop of \<open>send_event\<close> on its own.\<close>

abbreviation disconnect_all ::
  "string list \<Rightarrow> 'ws EnhancedConnectionManager \<Rightarrow> 'ws EnhancedConnectionManager" where
  "disconnect_all failed self \<equiv>
     fold (\<lambda>connection_id self. disconnect self connection_id) failed self"

subsection \<open>A manager with one connection\<close>

text \<open>
  Inputs for the concrete runs below: the manager holding the single connection
  \<^verbatim>\<open>c1\<close> of the session \<^verbatim>\<open>s1\<close> with a given count of failed sends, a transport whose
  \<^verbatim>\<open>send_text\<close> raises an \<^verbatim>\<open>Exception\<close>, one whose \<^verbatim>\<open>send_text\<close> raises
  \<^verbatim>\<open>WebSocketDisconnect\<close>, and a token event.
\<close>

definition one_connection :: "int \<Rightarrow> nat EnhancedConnectionManager" where
  "one_connection n =
     EnhancedConnectionManager_init
       \<lparr> connections := [''c1'' \<mapsto> (ConnectionInfo_init 1 ''s1'' 0)\<lparr>failed_sends := n\<rparr>],
         session_connections := [''s1'' \<mapsto> {|''c1''|}] \<rparr>"

definition failing_send :: "nat \<Rightarrow> json \<Rightarrow> send_result" where
  "failing_send ws text = SendError"

definition dropped_send :: "nat \<Rightarrow> json \<Rightarrow> send_result" where
  "dropped_send ws text = WebSocketDisconnect"

definition token_event :: StreamEvent where
  "token_event = \<lparr>type = ''token'', pane_id = ''pane-1'', data = TokenData ''Hi'' 0, timestamp = 0\<rparr>"

section \<open>Properties of the error handler\<close>

subsection \<open>The classifier\<close>

text \<open>
  Without a status code the classifier answers from the text alone, and then never with
  \<open>SERVICE_ERROR\<close> or \<open>VALIDATION_ERROR\<close>. The executor calls it this way.
\<close>

lemma classify_error_no_status_code:
  "classify_error error None \<in> {TIMEOUT, RATE_LIMIT, AUTH_ERROR, NETWORK_ERROR, UNKNOWN_ERROR}"
  by (simp add: classify_error_def Let_def)

text \<open>
  Claim C6. For every error and every status code from 400 on, \<open>classify_error\<close> returns
  the kind that the status code alone decides, whatever the text of the error: 429 gives
  \<open>RATE_LIMIT\<close>, 401 and 403 give \<open>AUTH_ERROR\<close>, a code from 500 on gives
  \<open>SERVICE_ERROR\<close>, and any other code from 400 on gives \<open>VALIDATION_ERROR\<close>.
\<close>

theorem classify_error_status_code_priority:
  assumes "400 \<le> code"
  shows "classify_error error (Some code) =
           (if code = 429 then RATE_LIMIT
            else if code = 401 \<or> code = 403 then AUTH_ERROR
            else if 500 \<le> code then SERVICE_ERROR
            else VALIDATION_ERROR)"
  using assms by (simp add: classify_error_def Let_def)

text \<open>
  An error whose text alone reads as a timeout is a rate limit under status 429.
\<close>

theorem classify_error_status_code_priority_witness:
  "(400::int) \<le> 429 \<and> classify_error (Exception ''connection timed out'') None = TIMEOUT
     \<and> classify_error (Exception ''connection timed out'') (Some 429) = RATE_LIMIT"
proof -
  have "classify_error (Exception ''connection timed out'') None = TIMEOUT"
    by (simp add: classify_error_def lower_def lower_char_def)
  with classify_error_status_code_priority [of 429 "Exception ''connection timed out''"]
  show ?thesis by simp
qed

subsection \<open>The back-off delay\<close>

lemma float_pow_two:
  "float_pow 2 0 = Inr 1" "float_pow 2 1 = Inr 2" "float_pow 2 2 = Inr 4"
  by (simp_all add: float_pow_def float_overflows_def)

lemma float_pow_nat:
  "float_pow x (int n) =
     (if float_overflows (real n) \<or> float_overflows (x ^ n) then Inl OverflowError
      else Inr (x ^ n))"
  by (simp add: float_pow_def)

lemma retry_strategies_nonneg:
  "0 \<le> base_delay (retry_strategies k) \<and> 0 \<le> exponential_base (retry_strategies k)
     \<and> 0 \<le> max_delay (retry_strategies k) \<and> jitter (retry_strategies k)"
  by (cases k) (simp_all add: RetryStrategy_init_def)

text \<open>
  Where the attempt index or the power overflows, there is no delay at all.
\<close>

lemma get_delay_overflow:
  "float_overflows (real n) \<or> float_overflows (exponential_base self ^ n) \<Longrightarrow>
     get_delay self rnd (int n) = Inl OverflowError"
  by (simp add: get_delay_def float_pow_nat)

text \<open>
  Claim C8 says that for every retry policy and every attempt index \<open>n\<close> the delay
  without jitter equals \<open>d\<close>, the minimum of \<open>base_delay * exponential_base ^ n\<close> and
  \<open>max_delay\<close>, and that with jitter it lies between \<open>0.5 * d\<close> and \<open>d\<close>. For the
  rate-limit policy of the table and the attempt index 1024 the power \<open>2.0 ** 1024\<close>
  overflows and \<open>get_delay\<close> raises \<^verbatim>\<open>OverflowError\<close>, as it does for the policy
  \<^verbatim>\<open>RetryStrategy(exponential_base=1.0)\<close> and the attempt index \<open>2 ^ 1024\<close>, which no
  float holds. And for the policy \<^verbatim>\<open>RetryStrategy(base_delay=-2.0)\<close>, attempt 0 and the
  random draw 0, \<open>d\<close> is \<open>-2\<close> and the delay with jitter is \<open>-1\<close>, which is above
  \<open>d\<close>.
\<close>

theorem get_delay_backoff_counterexample:
  "get_delay (retry_strategies RATE_LIMIT) (1/2) 1024 = Inl OverflowError
   \<and> get_delay (RetryStrategy_init None None None (Some 1) None) (1/2) (2 ^ 1024)
       = Inl OverflowError
   \<and> jitter (RetryStrategy_init None (Some (-2)) None None None)
   \<and> min (base_delay (RetryStrategy_init None (Some (-2)) None None None)
            * exponential_base (RetryStrategy_init None (Some (-2)) None None None) ^ 0)
          (max_delay (RetryStrategy_init None (Some (-2)) None None None)) = -2
   \<and> get_delay (RetryStrategy_init None (Some (-2)) None None None) 0 0 = Inr (-1)"
  by (simp add: get_delay_def float_pow_def float_overflows_def RetryStrategy_init_def)

text \<open>
  Claim C8, amended. For every retry policy and every attempt index \<open>n\<close> such that
  neither \<open>n\<close> nor \<open>exponential_base ^ n\<close> overflows a float, with \<open>d\<close> the minimum of
  \<open>base_delay * exponential_base ^ n\<close> and \<open>max_delay\<close>: without jitter the delay is
  \<open>d\<close>; with jitter, the random factor drawn from \<open>[0, 1)\<close> and \<open>d\<close> not negative,
  the delay lies between \<open>0.5 * d\<close> and \<open>d\<close>. In every entry of the table \<open>d\<close> is not
  negative (\<open>retry_strategies_nonneg\<close>).
\<close>

theorem get_delay_backoff:
  fixes self :: RetryStrategy and n :: nat and rnd :: real
  assumes "0 \<le> rnd" and "rnd < 1"
    and "\<not> float_overflows (real n)" and "\<not> float_overflows (exponential_base self ^ n)"
  shows "\<exists>delay. get_delay self rnd (int n) = Inr delay \<and>
           (let d = min (base_delay self * exponential_base self ^ n) (max_delay self)
            in (\<not> jitter self \<longrightarrow> delay = d) \<and>
               (jitter self \<and> 0 \<le> d \<longrightarrow> 0.5 * d \<le> delay \<and> delay \<le> d))"
proof -
  define d where "d = min (base_delay self * exponential_base self ^ n) (max_delay self)"
  have eq: "get_delay self rnd (int n) = Inr (if jitter self then d * (0.5 + rnd * 0.5) else d)"
    using assms(3,4) by (simp add: get_delay_def float_pow_nat d_def Let_def)
  have "0.5 * d \<le> d * (0.5 + rnd * 0.5) \<and> d * (0.5 + rnd * 0.5) \<le> d" if d0: "0 \<le> d"
  proof -
    have "d * 0.5 \<le> d * (0.5 + rnd * 0.5)"
      using d0 assms(1,2) by (intro mult_left_mono) simp_all
    moreover have "d * (0.5 + rnd * 0.5) \<le> d * 1"
      using d0 assms(1,2) by (intro mult_left_mono) simp_all
    ultimately show ?thesis by simp
  qed
  then show ?thesis
    unfolding eq d_def [symmetric] by (simp add: Let_def)
qed

text \<open>
  The rate-limit policy at attempt 3 has \<open>d = min (2 * 2 ^ 3) 120 = 16\<close>.
\<close>

theorem get_delay_backoff_witness:
  "(0::real) \<le> 1/2 \<and> (1/2::real) < 1
   \<and> \<not> float_overflows (real 3)
   \<and> \<not> float_overflows (exponential_base (retry_strategies RATE_LIMIT) ^ 3)
   \<and> (\<exists>delay. get_delay (retry_strategies RATE_LIMIT) (1/2) 3 = Inr delay
         \<and> 8 \<le> delay \<and> delay \<le> 16)"
proof -
  have a: "\<not> float_overflows (real 3)"
    and b: "\<not> float_overflows (exponential_base (retry_strategies RATE_LIMIT) ^ 3)"
    by (simp_all add: float_overflows_def RetryStrategy_init_def)
  from get_delay_backoff [of "1/2" 3 "retry_strategies RATE_LIMIT", OF _ _ a b] a b
  show ?thesis
    by (simp add: RetryStrategy_init_def Let_def)
qed

subsection \<open>The circuit breaker\<close>

text \<open>
  Claim C2, as the specification states it, ends with: while the breaker stays half-open
  and nothing is recorded, no further call of \<open>can_execute\<close> returns true. The code
  answers true in the half-open state: here the breaker opened at time 0 is asked at time
  61 and again at time 62, and both calls are allowed.
\<close>

theorem can_execute_half_open_counterexample:
  "can_execute 61 \<lparr>failure_threshold = 5, recovery_timeout = 60, failure_count = 5,
                    last_failure_time = Some 0, state = ''open''\<rparr>
     = Inr (True, \<lparr>failure_threshold = 5, recovery_timeout = 60, failure_count = 5,
                    last_failure_time = Some 0, state = ''half-open''\<rparr>)
   \<and> can_execute 62 \<lparr>failure_threshold = 5, recovery_timeout = 60, failure_count = 5,
                    last_failure_time = Some 0, state = ''half-open''\<rparr>
     = Inr (True, \<lparr>failure_threshold = 5, recovery_timeout = 60, failure_count = 5,
                    last_failure_time = Some 0, state = ''half-open''\<rparr>)"
  by (simp add: can_execute_def)

text \<open>
  Claim C2, amended. For every breaker in the state open whose last failure is more than
  \<open>recovery_timeout\<close> in the past, \<open>can_execute\<close> returns true and moves the breaker to
  half-open; while the breaker stays half-open, every further call of \<open>can_execute\<close>, at
  any time, returns true as well and leaves the breaker as it is.
\<close>

theorem can_execute_after_recovery_timeout:
  assumes "state self = ''open''" and "last_failure_time self = Some t"
    and "now - t > recovery_timeout self"
  shows "can_execute now self = Inr (True, self\<lparr>state := ''half-open''\<rparr>)
         \<and> can_execute later (self\<lparr>state := ''half-open''\<rparr>)
             = Inr (True, self\<lparr>state := ''half-open''\<rparr>)"
  using assms by (simp add: can_execute_def)

theorem can_execute_after_recovery_timeout_witness:
  "state \<lparr>failure_threshold = 5, recovery_timeout = 60, failure_count = 5,
          last_failure_time = Some 0, state = ''open''\<rparr> = ''open''
   \<and> (61::real) - 0 > 60
   \<and> can_execute 61 \<lparr>failure_threshold = 5, recovery_timeout = 60, failure_count = 5,
                    last_failure_time = Some 0, state = ''open''\<rparr>
     = Inr (True, \<lparr>failure_threshold = 5, recovery_timeout = 60, failure_count = 5,
                    last_failure_time = Some 0, state = ''half-open''\<rparr>)"
  using can_execute_after_recovery_timeout
          [of "\<lparr>failure_threshold = 5, recovery_timeout = 60, failure_count = 5,
                last_failure_time = Some 0, state = ''open''\<rparr>" 0 61 62]
  by simp

subsection \<open>The executor\<close>

text \<open>
  The loop runs over \<^verbatim>\<open>range(retry_strategies[UNKNOWN_ERROR].max_retries + 1)\<close>, the
  three attempts 0, 1 and 2, whatever kind the failures are classified to.
\<close>

lemma range_upto_unknown:
  "range_upto (max_retries (retry_strategies UNKNOWN_ERROR) + 1) = [0, 1, 2]"
  by (simp add: range_upto_def RetryStrategy_init_def upt_rec)

lemma max_retries_zero_iff:
  "max_retries (retry_strategies k) = 0 \<longleftrightarrow> k = AUTH_ERROR \<or> k = VALIDATION_ERROR"
  by (cases k) (simp_all add: RetryStrategy_init_def)

text \<open>
  Claim C7. For every call of the executor that the breaker admits and whose first
  attempt fails with an error classified to a kind with \<open>max_retries = 0\<close> (by
  \<open>max_retries_zero_iff\<close> the kinds \<open>AUTH_ERROR\<close> and \<open>VALIDATION_ERROR\<close>), the
  operation is invoked exactly once, nothing is slept, and that error is raised.
\<close>

theorem execute_with_retry_no_retry:
  assumes allowed: "can_execute now (fst (get_circuit_breaker self provider)) = Inr (True, cb)"
    and fails: "snd (operation 0) = Raises error"
    and budget: "max_retries (retry_strategies (classify_error error None)) = 0"
  shows "\<exists>self' w. execute_with_retry self operation rnd provider now = (Inl error, self', w)
           \<and> invocations w = 1 \<and> sleeps w = []"
proof (cases "get_circuit_breaker self provider")
  case (Pair cb0 self0)
  with assms show ?thesis
    unfolding execute_with_retry_def range_upto_unknown by (simp add: Let_def)
qed

theorem execute_with_retry_no_retry_witness:
  "can_execute 0 (fst (get_circuit_breaker ErrorHandler_init ''openai''))
     = Inr (True, CircuitBreaker_init None None)
   \<and> classify_error (Exception ''unauthorized'') None = AUTH_ERROR
   \<and> max_retries (retry_strategies AUTH_ERROR) = 0
   \<and> (\<exists>self' w. execute_with_retry ErrorHandler_init
                   (\<lambda>k. (1, Raises (Exception ''unauthorized'') :: unit outcome)) (\<lambda>k. 0) ''openai'' 0
                 = (Inl (Exception ''unauthorized''), self', w)
              \<and> invocations w = 1 \<and> sleeps w = [])"
proof -
  have a: "can_execute 0 (fst (get_circuit_breaker ErrorHandler_init ''openai''))
     = Inr (True, CircuitBreaker_init None None)"
    by (simp add: can_execute_def get_circuit_breaker_def ErrorHandler_init_def CircuitBreaker_init_def)
  have c: "classify_error (Exception ''unauthorized'') None = AUTH_ERROR"
    by (simp add: classify_error_def lower_def lower_char_def)
  have b: "max_retries (retry_strategies (classify_error (Exception ''unauthorized'') None)) = 0"
    by (simp add: c RetryStrategy_init_def)
  show ?thesis
    using execute_with_retry_no_retry [OF a _ b, of "\<lambda>k. (1, Raises (Exception ''unauthorized'') :: unit outcome)" "\<lambda>k. 0"]
      a b c by simp
qed

text \<open>
  Claim C1 says that a call whose attempts all fail with the kind \<open>K\<close> attempts the
  operation \<open>max_retries K + 1\<close> times, six times for \<open>RATE_LIMIT\<close>. The code, on a
  fresh handler and an operation that always raises a rate-limit error, invokes it three
  times.
\<close>

theorem execute_with_retry_rate_limit_attempts:
  "classify_error (Exception ''rate limit exceeded'') None = RATE_LIMIT
   \<and> max_retries (retry_strategies RATE_LIMIT) + 1 = 6
   \<and> invocations (snd (snd (execute_with_retry ErrorHandler_init
        (\<lambda>k. (1, Raises (Exception ''rate limit exceeded'') :: unit outcome)) (\<lambda>k. 0) ''openai'' 0))) = 3"
  unfolding execute_with_retry_def range_upto_unknown
  by (simp add: get_circuit_breaker_def ErrorHandler_init_def CircuitBreaker_init_def can_execute_def
    RetryStrategy_init_def put_circuit_breaker_def classify_error_def lower_def lower_char_def
    get_delay_def float_pow_two record_failure_def Let_def)

text \<open>
  In general the number of attempts is the budget of the kind plus one, capped by the
  budget of \<open>UNKNOWN_ERROR\<close> plus one, which bounds the loop.
\<close>

lemma execute_with_retry_attempts_capped:
  assumes allowed: "can_execute now (fst (get_circuit_breaker self provider)) = Inr (True, cb)"
    and fails: "\<And>k. snd (operation k) = Raises (errors k)"
    and kind: "\<And>k. classify_error (errors k) None = K"
  shows "int (invocations (snd (snd (execute_with_retry self operation rnd provider now))))
           = min (max_retries (retry_strategies K) + 1) (max_retries (retry_strategies UNKNOWN_ERROR) + 1)"
proof (cases "get_circuit_breaker self provider")
  case (Pair cb0 self0)
  with allowed show ?thesis
    unfolding execute_with_retry_def range_upto_unknown
    by (cases K)
       (simp_all add: Let_def fails kind RetryStrategy_init_def get_delay_def float_pow_two)
qed

subsection \<open>Failing calls and the breaker\<close>

lemma get_delay_retry_strategies:
  assumes "0 \<le> attempt" and "attempt \<le> 2"
  shows "\<exists>delay. get_delay (retry_strategies k) r attempt = Inr delay"
proof -
  from assms have "attempt = 0 \<or> attempt = 1 \<or> attempt = 2" by auto
  then show ?thesis
    by (cases k) (auto simp: get_delay_def RetryStrategy_init_def float_pow_two Let_def)
qed

lemma record_failure_fields:
  "failure_threshold (record_failure t cb) = failure_threshold cb"
  "recovery_timeout (record_failure t cb) = recovery_timeout cb"
  "failure_count (record_failure t cb) = failure_count cb + 1"
  "last_failure_time (record_failure t cb) = Some t"
  "failure_threshold cb \<le> failure_count cb + 1 \<Longrightarrow> state (record_failure t cb) = ''open''"
  by (simp_all add: record_failure_def Let_def)

lemma can_execute_fields:
  assumes "can_execute now cb = Inr (True, cb1)"
  shows "failure_threshold cb1 = failure_threshold cb \<and> recovery_timeout cb1 = recovery_timeout cb
         \<and> failure_count cb1 = failure_count cb"
  using assms by (auto simp: can_execute_def split: if_splits option.splits)

lemma retry_loop_all_fail:
  assumes "\<And>k. \<exists>e. snd (operation k) = Raises e"
    and "\<forall>a\<in>set attempts. 0 \<le> a \<and> a \<le> 2"
  shows "\<exists>cb' le' w'. retry_loop operation rnd attempts cb le w = (Fallthrough, cb', le', w')
            \<and> (cb' = cb \<or> (\<exists>t. cb' = record_failure t cb))
            \<and> (attempts \<noteq> [] \<longrightarrow> invocations w < invocations w')"
  using assms(2)
proof (induction attempts arbitrary: le w)
  case Nil
  then show ?case by simp
next
  case (Cons attempt rest)
  obtain e where e: "snd (operation (invocations w)) = Raises e"
    using assms(1) by blast
  let ?s = "retry_strategies (classify_error e None)"
  let ?w1 = "w\<lparr>clock := clock w + fst (operation (invocations w)), invocations := Suc (invocations w)\<rparr>"
  show ?case
  proof (cases "max_retries ?s \<le> attempt")
    case True
    with e show ?thesis by (auto simp: Let_def)
  next
    case False
    from Cons.prems have "0 \<le> attempt" and "attempt \<le> 2" by simp_all
    then obtain delay where d: "get_delay ?s (rnd (length (sleeps w))) attempt = Inr delay"
      using get_delay_retry_strategies by blast
    let ?w2 = "?w1\<lparr>clock := clock ?w1 + max 0 delay, sleeps := sleeps ?w1 @ [delay]\<rparr>"
    from Cons.prems have "\<forall>a\<in>set rest. 0 \<le> a \<and> a \<le> 2" by simp
    from Cons.IH [OF this, of "Some e" ?w2]
    obtain cb' le' w' where r: "retry_loop operation rnd rest cb (Some e) ?w2 = (Fallthrough, cb', le', w')"
      and c: "cb' = cb \<or> (\<exists>t. cb' = record_failure t cb)"
      and i: "rest \<noteq> [] \<longrightarrow> invocations ?w2 < invocations w'"
      by blast
    have j: "invocations ?w2 \<le> invocations w'"
    proof (cases rest)
      case Nil
      with r show ?thesis by simp
    next
      case (Cons a list)
      with i show ?thesis by simp
    qed
    from False e d r c j show ?thesis by (auto simp: Let_def)
  qed
qed

lemma execute_with_retry_failing_call:
  assumes fails: "\<And>k. \<exists>e. snd (operation k) = Raises e"
    and call: "execute_with_retry self operation rnd provider now = (r, self', w)"
    and attempted: "0 < invocations w"
  shows "\<exists>cb'. circuit_breakers self' provider = Some cb'
           \<and> failure_threshold cb' = failure_threshold (breaker_of self provider)
           \<and> recovery_timeout cb' = recovery_timeout (breaker_of self provider)
           \<and> failure_count (breaker_of self provider) + 1 \<le> failure_count cb'
           \<and> last_failure_time cb' = Some (clock w)
           \<and> (failure_threshold cb' \<le> failure_count cb' \<longrightarrow> state cb' = ''open'')"
proof (cases "get_circuit_breaker self provider")
  case (Pair cb0 self0)
  then have b0: "breaker_of self provider = cb0" by (simp add: breaker_of_def)
  let ?w0 = "\<lparr>clock = now, invocations = 0, sleeps = []\<rparr>"
  show ?thesis
  proof (cases "can_execute now cb0")
    case (Inl e)
    with Pair call attempted show ?thesis
      by (auto simp: execute_with_retry_def)
  next
    case (Inr p)
    obtain allowed cb1 where p: "p = (allowed, cb1)" by (cases p)
    show ?thesis
    proof (cases allowed)
      case False
      with Pair Inr p call attempted show ?thesis
        by (auto simp: execute_with_retry_def)
    next
      case True
      with Inr p have ce: "can_execute now cb0 = Inr (True, cb1)" by simp
      note f1 = can_execute_fields [OF ce]
      have "\<forall>a\<in>set [0, 1, 2::int]. 0 \<le> a \<and> a \<le> 2" by simp
      from retry_loop_all_fail [of operation "[0, 1, 2]" rnd cb1 None ?w0, OF fails this]
      obtain cb2 le' w' where
        l: "retry_loop operation rnd [0, 1, 2] cb1 None ?w0 = (Fallthrough, cb2, le', w')"
        and c: "cb2 = cb1 \<or> (\<exists>t. cb2 = record_failure t cb1)"
        by blast
      from call Pair ce l have w: "w = w'"
        and s: "self' = put_circuit_breaker self0 provider (record_failure (clock w') cb2)"
        unfolding execute_with_retry_def range_upto_unknown
        by (auto simp del: retry_loop.simps)
      let ?cb3 = "record_failure (clock w') cb2"
      have get: "circuit_breakers self' provider = Some ?cb3"
        by (simp add: s put_circuit_breaker_def)
      have f2: "failure_threshold cb2 = failure_threshold cb0 \<and> recovery_timeout cb2 = recovery_timeout cb0
                 \<and> failure_count cb0 \<le> failure_count cb2"
        using c f1 by (auto simp: record_failure_fields)
      have "state ?cb3 = ''open''" if "failure_threshold ?cb3 \<le> failure_count ?cb3"
        using that by (intro record_failure_fields(5)) (simp add: record_failure_fields)
      with get f2 show ?thesis
        by (simp add: b0 w record_failure_fields)
    qed
  qed
qed

lemma breaker_of_Some:
  "circuit_breakers self provider = Some cb \<Longrightarrow> breaker_of self provider = cb"
  by (simp add: breaker_of_def get_circuit_breaker_def)

lemma execute_with_retry_blocked:
  assumes "circuit_breakers self provider = Some cb" and "state cb = ''open''"
    and "last_failure_time cb = Some t" and "now - t \<le> recovery_timeout cb"
  shows "execute_with_retry self operation rnd provider now
           = (Inl (Exception (circuit_open_message provider)), self,
              \<lparr>clock = now, invocations = 0, sleeps = []\<rparr>)"
proof -
  have "put_circuit_breaker self provider cb = self"
    using assms(1) by (simp add: put_circuit_breaker_def map_upd_triv)
  with assms show ?thesis
    by (simp add: execute_with_retry_def get_circuit_breaker_def can_execute_def)
qed

lemma execute_always_timeout:
  assumes "can_execute now (breaker_of self provider) = Inr (True, cb1)"
  shows "execute_with_retry self always_timeout lowest_draw provider now
           = (Inl (Exception ''timeout''),
              put_circuit_breaker self provider (record_failure (now + 7/2) cb1),
              \<lparr>clock = now + 7/2, invocations = 3, sleeps = [1/2, 1, 2]\<rparr>)"
  using assms unfolding execute_with_retry_def range_upto_unknown
  by (auto simp: breaker_of_def get_circuit_breaker_def always_timeout_def lowest_draw_def
        classify_error_def lower_def lower_char_def RetryStrategy_init_def get_delay_def
        float_pow_two
        put_circuit_breaker_def Let_def add.commute split: option.splits)

lemma breaker_of_put [simp]:
  "breaker_of (put_circuit_breaker self provider cb) provider = cb"
  by (simp add: breaker_of_def get_circuit_breaker_def put_circuit_breaker_def)

lemma breaker_of_init [simp]:
  "breaker_of ErrorHandler_init provider = CircuitBreaker_init None None"
  by (simp add: breaker_of_def get_circuit_breaker_def ErrorHandler_init_def)

lemma after_timeouts_breaker:
  "n \<le> 5 \<Longrightarrow> breaker_of (after_timeouts n) ''P'' =
     \<lparr>failure_threshold = 5, recovery_timeout = 60, failure_count = int n,
      last_failure_time = (if n = 0 then None else Some (10 * real n - 13/2)),
      state = (if n < 5 then ''closed'' else ''open'')\<rparr>"
proof (induction n)
  case 0
  then show ?case by (simp add: CircuitBreaker_init_def)
next
  case (Suc n)
  then have ih: "breaker_of (after_timeouts n) ''P'' =
     \<lparr>failure_threshold = 5, recovery_timeout = 60, failure_count = int n,
      last_failure_time = (if n = 0 then None else Some (10 * real n - 13/2)),
      state = ''closed''\<rparr>" and n: "n < 5" by simp_all
  then have "can_execute (10 * real n) (breaker_of (after_timeouts n) ''P'')
                 = Inr (True, breaker_of (after_timeouts n) ''P'')"
    by (simp add: can_execute_def)
  from execute_always_timeout [OF this] ih n show ?case
    by (auto simp: record_failure_def Let_def)
qed


lemma after_timeouts_call:
  assumes "i < 5"
  shows "execute_with_retry (after_timeouts i) always_timeout lowest_draw ''P'' (10 * real i)
           = (Inl (Exception ''timeout''), after_timeouts (Suc i),
              \<lparr>clock = 10 * real i + 7/2, invocations = 3, sleeps = [1/2, 1, 2]\<rparr>)"
proof -
  have "can_execute (10 * real i) (breaker_of (after_timeouts i) ''P'')
          = Inr (True, breaker_of (after_timeouts i) ''P'')"
    using assms by (simp add: after_timeouts_breaker can_execute_def)
  from execute_always_timeout [OF this] show ?thesis by simp
qed

text \<open>
  Once \<open>recovery_timeout\<close> has passed, the open breaker admits a call again, as its
  design has it. Here five calls for the provider \<^verbatim>\<open>P\<close> fail in all their attempts
  and open the breaker, with the last failure recorded at time 43.5; a call at time 105
  is admitted, the operation is invoked three times and its own error is raised.
\<close>

lemma call_after_recovery_timeout:
  "classify_error (Exception ''timeout'') None = TIMEOUT
   \<and> state (breaker_of (after_timeouts 5) ''P'') = ''open''
   \<and> failure_count (breaker_of (after_timeouts 5) ''P'') = 5
   \<and> last_failure_time (breaker_of (after_timeouts 5) ''P'') = Some (87/2)
   \<and> fst (execute_with_retry (after_timeouts 5) always_timeout lowest_draw ''P'' 105)
        = Inl (Exception ''timeout'')
   \<and> invocations (snd (snd (execute_with_retry (after_timeouts 5) always_timeout lowest_draw ''P'' 105))) = 3"
proof -
  have "can_execute 105 (breaker_of (after_timeouts 5) ''P'')
          = Inr (True, (breaker_of (after_timeouts 5) ''P'')\<lparr>state := ''half-open''\<rparr>)"
    by (simp add: after_timeouts_breaker can_execute_def)
  from execute_always_timeout [OF this] show ?thesis
    by (simp add: after_timeouts_breaker classify_error_def lower_def lower_char_def)
qed

text \<open>
  Claim C5. If five successive calls of the executor for a provider each fail in all
  their attempts, with no success recorded in between, the breaker of the provider
  reaches the open state, and the sixth call fails at once with the circuit-open error,
  the exception whose message is \<^verbatim>\<open>Circuit breaker open for provider\<close> followed by the
  name of the provider, without invoking the operation and without counting a retry:
  nothing is slept and the handler is left as it is.

  The statement holds for failures of every kind, \<open>SERVICE_ERROR\<close> included. \<open>hs i\<close>
  is the handler before call \<open>i\<close>; the first breaker has the default threshold 5 and
  a failure count that is not negative, as every breaker of a handler has; each of the
  five calls invokes the operation; and the sixth call is made at a time \<open>now\<close> while
  the breaker is within its recovery timeout, \<open>now - t \<le> recovery_timeout\<close> for the
  time \<open>t\<close> of the last failure.
\<close>

theorem five_failed_calls_open_circuit:
  fixes hs :: "nat \<Rightarrow> ErrorHandler" and ops :: "nat \<Rightarrow> nat \<Rightarrow> real \<times> 'a outcome"
  assumes start: "failure_threshold (breaker_of (hs 0) provider) = 5"
      "0 \<le> failure_count (breaker_of (hs 0) provider)"
    and calls: "\<forall>i<5. \<exists>r w. execute_with_retry (hs i) (ops i) (rnds i) provider (nows i) = (r, hs (Suc i), w)
                    \<and> 0 < invocations w"
    and fails: "\<forall>i<5. \<forall>k. \<exists>e. snd (ops i k) = Raises e"
  shows "\<exists>t. state (breaker_of (hs 5) provider) = ''open''
           \<and> last_failure_time (breaker_of (hs 5) provider) = Some t
           \<and> (now - t \<le> recovery_timeout (breaker_of (hs 5) provider) \<longrightarrow>
                execute_with_retry (hs 5) operation rnd provider now
                  = (Inl (Exception (circuit_open_message provider)), hs 5,
                     \<lparr>clock = now, invocations = 0, sleeps = []\<rparr>))"
proof -
  have step: "\<exists>cb' t. circuit_breakers (hs (Suc i)) provider = Some cb'
           \<and> failure_threshold cb' = failure_threshold (breaker_of (hs i) provider)
           \<and> failure_count (breaker_of (hs i) provider) + 1 \<le> failure_count cb'
           \<and> last_failure_time cb' = Some t
           \<and> (failure_threshold cb' \<le> failure_count cb' \<longrightarrow> state cb' = ''open'')" if "i < 5" for i
  proof -
    from calls that obtain r w where
      c: "execute_with_retry (hs i) (ops i) (rnds i) provider (nows i) = (r, hs (Suc i), w)"
      and a: "0 < invocations w" by blast
    from fails that have f: "\<And>k. \<exists>e. snd (ops i k) = Raises e" by blast
    from execute_with_retry_failing_call [OF f c a] show ?thesis by blast
  qed
  have count: "failure_threshold (breaker_of (hs i) provider) = 5
                 \<and> int i \<le> failure_count (breaker_of (hs i) provider)" if "i \<le> 5" for i
    using that
  proof (induction i)
    case 0
    with start show ?case by simp
  next
    case (Suc i)
    then have i: "i < 5" and ih: "failure_threshold (breaker_of (hs i) provider) = 5"
      "int i \<le> failure_count (breaker_of (hs i) provider)" by simp_all
    from step [OF i] obtain cb' where "circuit_breakers (hs (Suc i)) provider = Some cb'"
      "failure_threshold cb' = failure_threshold (breaker_of (hs i) provider)"
      "failure_count (breaker_of (hs i) provider) + 1 \<le> failure_count cb'" by blast
    with ih show ?case by (simp add: breaker_of_Some)
  qed
  from step [of 4] obtain cb t where cb: "circuit_breakers (hs 5) provider = Some cb"
    and t: "last_failure_time cb = Some t"
    and st: "failure_threshold cb \<le> failure_count cb \<longrightarrow> state cb = ''open''"
    by auto
  have b: "breaker_of (hs 5) provider = cb" using cb by (rule breaker_of_Some)
  from count [of 5] b have "failure_threshold cb \<le> failure_count cb" by simp
  with st have op: "state cb = ''open''" by simp
  show ?thesis
    using op t execute_with_retry_blocked [OF cb op t] by (auto simp: b)
qed

theorem five_failed_calls_open_circuit_witness:
  "failure_threshold (breaker_of (after_timeouts 0) ''P'') = 5
   \<and> 0 \<le> failure_count (breaker_of (after_timeouts 0) ''P'')
   \<and> snd (always_timeout 0) = Raises (Exception ''timeout'')
   \<and> execute_with_retry (after_timeouts 0) always_timeout lowest_draw ''P'' (10 * real 0)
        = (Inl (Exception ''timeout''), after_timeouts 1,
           \<lparr>clock = 10 * real 0 + 7/2, invocations = 3, sleeps = [1/2, 1, 2]\<rparr>)
   \<and> execute_with_retry (after_timeouts 4) always_timeout lowest_draw ''P'' (10 * real 4)
        = (Inl (Exception ''timeout''), after_timeouts 5,
           \<lparr>clock = 10 * real 4 + 7/2, invocations = 3, sleeps = [1/2, 1, 2]\<rparr>)
   \<and> state (breaker_of (after_timeouts 5) ''P'') = ''open''
   \<and> last_failure_time (breaker_of (after_timeouts 5) ''P'') = Some (87/2)
   \<and> execute_with_retry (after_timeouts 5) always_timeout lowest_draw ''P'' 50
        = (Inl (Exception (circuit_open_message ''P'')), after_timeouts 5,
           \<lparr>clock = 50, invocations = 0, sleeps = []\<rparr>)
   \<and> Exception (circuit_open_message ''P'') \<noteq> Exception ''timeout''"
proof -
  have a: "failure_threshold (breaker_of (after_timeouts 0) ''P'') = 5"
    and b: "0 \<le> failure_count (breaker_of (after_timeouts 0) ''P'')"
    by (simp_all add: CircuitBreaker_init_def)
  have c: "\<forall>i<5. \<exists>r w. execute_with_retry (after_timeouts i) ((\<lambda>i. always_timeout) i) ((\<lambda>i. lowest_draw) i)
                     ''P'' ((\<lambda>i. 10 * real i) i) = (r, after_timeouts (Suc i), w) \<and> 0 < invocations w"
  proof (intro allI impI)
    fix i :: nat
    assume "i < 5"
    from after_timeouts_call [OF this] show "\<exists>r w. execute_with_retry (after_timeouts i) ((\<lambda>i. always_timeout) i) ((\<lambda>i. lowest_draw) i)
                     ''P'' ((\<lambda>i. 10 * real i) i) = (r, after_timeouts (Suc i), w) \<and> 0 < invocations w"
      by (simp del: after_timeouts.simps)
  qed
  have d: "\<forall>i<5::nat. \<forall>k. \<exists>e. snd ((\<lambda>i. always_timeout) i k) = Raises e"
    by (simp add: always_timeout_def)
  have l: "last_failure_time (breaker_of (after_timeouts 5) ''P'') = Some (87/2)"
    by (simp add: after_timeouts_breaker)
  from five_failed_calls_open_circuit [OF a b c d, of 50 always_timeout lowest_draw]
  obtain t where o: "state (breaker_of (after_timeouts 5) ''P'') = ''open''"
    and t: "last_failure_time (breaker_of (after_timeouts 5) ''P'') = Some t"
    and e: "50 - t \<le> recovery_timeout (breaker_of (after_timeouts 5) ''P'') \<longrightarrow>
              execute_with_retry (after_timeouts 5) always_timeout lowest_draw ''P'' 50
                = (Inl (Exception (circuit_open_message ''P'')), after_timeouts 5,
                   \<lparr>clock = 50, invocations = 0, sleeps = []\<rparr>)"
    by blast
  from t l have "t = 87/2" by simp
  with e have "execute_with_retry (after_timeouts 5) always_timeout lowest_draw ''P'' 50
                = (Inl (Exception (circuit_open_message ''P'')), after_timeouts 5,
                   \<lparr>clock = 50, invocations = 0, sleeps = []\<rparr>)"
    by (simp add: after_timeouts_breaker)
  with o have "state (breaker_of (after_timeouts 5) ''P'') = ''open''
        \<and> execute_with_retry (after_timeouts 5) always_timeout lowest_draw ''P'' 50
        = (Inl (Exception (circuit_open_message ''P'')), after_timeouts 5,
           \<lparr>clock = 50, invocations = 0, sleeps = []\<rparr>)"
    by simp
  moreover have "snd (always_timeout 0) = Raises (Exception ''timeout'')"
    by (simp add: always_timeout_def)
  moreover note after_timeouts_call [of 0, folded One_nat_def] after_timeouts_call [of 4]
  moreover have "Exception (circuit_open_message ''P'') \<noteq> Exception ''timeout''"
    by (simp add: circuit_open_message_def)
  ultimately show ?thesis using a b l by (simp del: after_timeouts.simps)
qed

section \<open>Properties of the stream event\<close>

text \<open>
  Claim C4 says that the data object of every event of type \<^verbatim>\<open>token\<close> has the fields
  \<^verbatim>\<open>text\<close> and \<^verbatim>\<open>position\<close>. The class \<^verbatim>\<open>TokenData\<close> names them \<^verbatim>\<open>token\<close> and
  \<^verbatim>\<open>position\<close>, so no field \<^verbatim>\<open>text\<close> is written; and the constructor accepts an event
  of type \<^verbatim>\<open>token\<close> that carries a \<^verbatim>\<open>FinalData\<close>, whose data object has the fields of
  that class.
\<close>

theorem token_event_fields_counterexample:
  "StreamEvent_init ''token'' ''pane-1'' (TokenData ''Hi'' 0) 0
     = Inr \<lparr>type = ''token'', pane_id = ''pane-1'', data = TokenData ''Hi'' 0, timestamp = 0\<rparr>
   \<and> field ''data'' (model_dump_json
         \<lparr>type = ''token'', pane_id = ''pane-1'', data = TokenData ''Hi'' 0, timestamp = 0\<rparr>)
       = Some (JObject [(''token'', JStr ''Hi''), (''position'', JInt 0)])
   \<and> ''text'' \<notin> set (keys (JObject [(''token'', JStr ''Hi''), (''position'', JInt 0)]))
   \<and> StreamEvent_init ''token'' ''pane-1'' (FinalData ''Hi'' ''stop'' None) 0
     = Inr \<lparr>type = ''token'', pane_id = ''pane-1'', data = FinalData ''Hi'' ''stop'' None, timestamp = 0\<rparr>
   \<and> field ''data'' (model_dump_json
         \<lparr>type = ''token'', pane_id = ''pane-1'', data = FinalData ''Hi'' ''stop'' None, timestamp = 0\<rparr>)
       = Some (JObject [(''content'', JStr ''Hi''), (''finish_reason'', JStr ''stop''), (''message_id'', JNull)])"
  by (simp add: StreamEvent_init_def model_dump_json_def optional_str_def)

text \<open>
  Claim C4, amended. Every serialized event has exactly the fields \<^verbatim>\<open>type\<close>,
  \<^verbatim>\<open>pane_id\<close>, \<^verbatim>\<open>data\<close> and \<^verbatim>\<open>timestamp\<close>, holding the values of the event, and
  \<^verbatim>\<open>data\<close> is an object whose field names are those of the class of the payload:
  \<^verbatim>\<open>token, position\<close> for a \<^verbatim>\<open>TokenData\<close>, \<^verbatim>\<open>content, finish_reason, message_id\<close> for a
  \<^verbatim>\<open>FinalData\<close>, \<^verbatim>\<open>tokens_used, cost, latency\<close> for a \<^verbatim>\<open>MeterData\<close>,
  \<^verbatim>\<open>message, code, retryable\<close> for an \<^verbatim>\<open>ErrorData\<close> and \<^verbatim>\<open>status, message\<close> for a
  \<^verbatim>\<open>StatusData\<close>.
\<close>

theorem model_dump_json_fields:
  "keys (model_dump_json event) = [''type'', ''pane_id'', ''data'', ''timestamp'']
   \<and> field ''type'' (model_dump_json event) = Some (JStr (type event))
   \<and> field ''pane_id'' (model_dump_json event) = Some (JStr (pane_id event))
   \<and> field ''timestamp'' (model_dump_json event) = Some (JDatetime (timestamp event))
   \<and> (\<exists>obj. field ''data'' (model_dump_json event) = Some obj \<and>
        keys obj =
          (case data event of
             TokenData _ _ \<Rightarrow> [''token'', ''position'']
           | FinalData _ _ _ \<Rightarrow> [''content'', ''finish_reason'', ''message_id'']
           | MeterData _ _ _ \<Rightarrow> [''tokens_used'', ''cost'', ''latency'']
           | ErrorData _ _ _ \<Rightarrow> [''message'', ''code'', ''retryable'']
           | StatusData _ _ \<Rightarrow> [''status'', ''message'']))"
  by (cases "data event") (simp_all add: model_dump_json_def)

section \<open>Properties of the connection manager\<close>

subsection \<open>disconnect\<close>

lemma connections_disconnect:
  "connections (disconnect self c) = (connections self)(c := None)"
  by (auto simp: disconnect_def Let_def split: option.splits)

lemma index_has_disconnect:
  "index_has (disconnect self c) sid cid \<longleftrightarrow>
     index_has self sid cid \<and>
     \<not> (cid = c \<and> (\<exists>info. connections self c = Some info \<and> session_id info = sid))"
  by (auto simp: disconnect_def index_has_def Let_def split: option.splits if_splits)

lemma no_empty_entry_disconnect:
  "no_empty_entry self \<Longrightarrow> no_empty_entry (disconnect self c)"
  by (auto simp: disconnect_def no_empty_entry_def Let_def split: option.splits)

lemma consistent_disconnect:
  assumes "consistent self"
  shows "consistent (disconnect self c)"
  unfolding consistent_def
proof (intro conjI allI impI)
  fix sid cid
  assume h: "index_has (disconnect self c) sid cid"
  then have i: "index_has self sid cid" by (simp add: index_has_disconnect)
  with assms have "cid \<in> dom (connections self)"
    unfolding consistent_def by blast
  then obtain info where info: "connections self cid = Some info"
    by auto
  with assms i have "sid = session_id info" by (auto simp: consistent_def)
  with h info have "cid \<noteq> c" by (auto simp: index_has_disconnect)
  with info show "cid \<in> dom (connections (disconnect self c))"
    by (auto simp: connections_disconnect)
next
  fix cid info sid
  assume "connections (disconnect self c) cid = Some info"
  then have ne: "cid \<noteq> c" and info: "connections self cid = Some info"
    by (auto simp: connections_disconnect split: if_splits)
  with assms have "index_has self sid cid \<longleftrightarrow> sid = session_id info"
    by (auto simp: consistent_def)
  with ne show "index_has (disconnect self c) sid cid \<longleftrightarrow> sid = session_id info"
    by (simp add: index_has_disconnect)
qed

lemma consistent_disconnect_all:
  "consistent self \<Longrightarrow> consistent (disconnect_all failed self)"
  by (induction failed arbitrary: self) (simp_all add: consistent_disconnect)

lemma no_empty_entry_disconnect_all:
  "no_empty_entry self \<Longrightarrow> no_empty_entry (disconnect_all failed self)"
  by (induction failed arbitrary: self) (simp_all add: no_empty_entry_disconnect)

lemma connections_disconnect_all:
  "connections (disconnect_all failed self) cid =
     (if cid \<in> set failed then None else connections self cid)"
  by (induction failed arbitrary: self) (auto simp: connections_disconnect)

lemma index_has_disconnect_all:
  "index_has (disconnect_all failed self) sid cid \<Longrightarrow> index_has self sid cid"
proof (induction failed arbitrary: self)
  case Nil
  then show ?case by simp
next
  case (Cons c failed)
  then have "index_has (disconnect self c) sid cid" by simp
  then show ?case by (simp add: index_has_disconnect)
qed

lemma index_has_disconnect_all_other:
  "cid \<notin> set failed \<Longrightarrow>
     index_has (disconnect_all failed self) sid cid \<longleftrightarrow> index_has self sid cid"
  by (induction failed arbitrary: self) (auto simp: index_has_disconnect)

subsection \<open>send_event\<close>

text \<open>
  The first loop changes \<open>failed_sends\<close> and \<open>is_alive\<close> only: the table keeps its
  ids and each connection its session.
\<close>

lemma consistent_connections_update:
  assumes "consistent self"
    and "\<And>cid. map_option session_id (conns cid) = map_option session_id (connections self cid)"
  shows "consistent (self\<lparr>connections := conns\<rparr>)"
proof -
  have ih: "index_has (self\<lparr>connections := conns\<rparr>) = index_has self"
    by (simp add: index_has_def fun_eq_iff)
  have d: "cid \<in> dom conns \<longleftrightarrow> cid \<in> dom (connections self)" for cid
    using assms(2) [of cid] by (cases "conns cid"; cases "connections self cid") auto
  have s: "\<exists>info'. connections self cid = Some info' \<and> session_id info' = session_id info"
    if "conns cid = Some info" for cid info
    using assms(2) [of cid] that by (cases "connections self cid") auto
  show ?thesis
    unfolding consistent_def ih
  proof (intro conjI allI impI)
    fix sid cid assume "index_has self sid cid"
    with assms(1) have "cid \<in> dom (connections self)" by (auto simp: consistent_def)
    with d show "cid \<in> dom (connections (self\<lparr>connections := conns\<rparr>))" by simp
  next
    fix cid info sid
    assume "connections (self\<lparr>connections := conns\<rparr>) cid = Some info"
    then have "conns cid = Some info" by simp
    from s [OF this] obtain info' where "connections self cid = Some info'"
      "session_id info' = session_id info" by blast
    with assms(1) show "index_has self sid cid \<longleftrightarrow> sid = session_id info"
      by (auto simp: consistent_def)
  qed
qed

lemma send_loop_session_id:
  "send_loop send_text ev limit xs (conns, n, failed) = (conns', n', failed') \<Longrightarrow>
     map_option session_id (conns' cid) = map_option session_id (conns cid)"
proof (induction xs arbitrary: conns n failed)
  case Nil
  then show ?case by simp
next
  case (Cons x xs)
  show ?case
  proof (cases "conns x")
    case None
    with Cons.prems Cons.IH show ?thesis by simp
  next
    case (Some info)
    show ?thesis
    proof (cases "send_text (websocket info) ev")
      case Sent
      with Some Cons.prems have
        "send_loop send_text ev limit xs (conns(x \<mapsto> info\<lparr>failed_sends := 0\<rparr>), n + 1, failed) = (conns', n', failed')"
        by simp
      from Cons.IH [OF this] Some show ?thesis by (simp split: if_splits)
    next
      case WebSocketDisconnect
      with Some Cons.prems Cons.IH show ?thesis by simp
    next
      case SendError
      show ?thesis
      proof (cases "limit \<le> failed_sends info + 1")
        case True
        with SendError Some Cons.prems have
          "send_loop send_text ev limit xs
             (conns(x \<mapsto> info\<lparr>failed_sends := failed_sends info + 1, is_alive := False\<rparr>), n, failed @ [x])
           = (conns', n', failed')"
          by (simp add: Let_def)
        from Cons.IH [OF this] Some show ?thesis by (simp split: if_splits)
      next
        case False
        with SendError Some Cons.prems have
          "send_loop send_text ev limit xs
             (conns(x \<mapsto> info\<lparr>failed_sends := failed_sends info + 1\<rparr>), n, failed)
           = (conns', n', failed')"
          by (simp add: Let_def)
        from Cons.IH [OF this] Some show ?thesis by (simp split: if_splits)
      qed
    qed
  qed
qed

lemma consistent_send_event:
  assumes "consistent self"
  shows "consistent (snd (send_event self send_text sid event))"
proof (cases "session_connections self sid")
  case None
  with assms show ?thesis by (simp add: send_event_def)
next
  case (Some ids)
  obtain conns n failed where l:
    "send_loop send_text (model_dump_json event) (max_failed_sends self)
       (sorted_list_of_fset ids) (connections self, 0, []) = (conns, n, failed)"
    by (cases "send_loop send_text (model_dump_json event) (max_failed_sends self)
       (sorted_list_of_fset ids) (connections self, 0, [])") auto
  have "consistent (self\<lparr>connections := conns\<rparr>)"
    using assms send_loop_session_id [OF l] by (rule consistent_connections_update)
  then have "consistent (disconnect_all failed (self\<lparr>connections := conns\<rparr>))"
    by (rule consistent_disconnect_all)
  with Some l show ?thesis by (simp add: send_event_def)
qed

lemma no_empty_entry_send_event:
  assumes "no_empty_entry self"
  shows "no_empty_entry (snd (send_event self send_text sid event))"
proof (cases "session_connections self sid")
  case None
  with assms show ?thesis by (simp add: send_event_def)
next
  case (Some ids)
  obtain conns n failed where l:
    "send_loop send_text (model_dump_json event) (max_failed_sends self)
       (sorted_list_of_fset ids) (connections self, 0, []) = (conns, n, failed)"
    by (cases "send_loop send_text (model_dump_json event) (max_failed_sends self)
       (sorted_list_of_fset ids) (connections self, 0, [])") auto
  have "no_empty_entry (self\<lparr>connections := conns\<rparr>)"
    using assms by (simp add: no_empty_entry_def)
  then have "no_empty_entry (disconnect_all failed (self\<lparr>connections := conns\<rparr>))"
    by (rule no_empty_entry_disconnect_all)
  with Some l show ?thesis by (simp add: send_event_def)
qed

subsection \<open>connect\<close>

lemma index_has_connect:
  "index_has (snd (connect self None uuid now ws sid)) s c \<longleftrightarrow>
     (if s = sid then c = uuid \<or> index_has self sid c else index_has self s c)"
  by (auto simp: connect_def index_has_def Let_def split: option.splits)

lemma connections_connect:
  "connections (snd (connect self None uuid now ws sid)) =
     (connections self)(uuid \<mapsto> ConnectionInfo_init ws sid now)"
  by (auto simp: connect_def Let_def)

lemma consistent_connect:
  assumes "consistent self" and "uuid \<notin> dom (connections self)"
  shows "consistent (snd (connect self accepted uuid now ws sid))"
proof (cases accepted)
  case (Some e)
  with assms show ?thesis by (simp add: connect_def)
next
  case None
  have fresh: "\<not> index_has self s uuid" for s
    using assms by (auto simp: consistent_def)
  show ?thesis
    unfolding None consistent_def index_has_connect connections_connect
    using assms(1) fresh
    by (auto simp: consistent_def ConnectionInfo_init_def)
qed

lemma no_empty_entry_connect:
  assumes "no_empty_entry self"
  shows "no_empty_entry (snd (connect self accepted uuid now ws sid))"
  using assms
  by (cases accepted) (auto simp: connect_def no_empty_entry_def Let_def)

subsection \<open>One connection in a broadcast\<close>

lemma send_loop_other:
  "send_loop send_text ev limit xs (conns, n, failed) = (conns', n', failed') \<Longrightarrow>
     cid \<notin> set xs \<Longrightarrow>
     conns' cid = conns cid \<and> (cid \<in> set failed' \<longleftrightarrow> cid \<in> set failed)"
proof (induction xs arbitrary: conns n failed)
  case Nil
  then show ?case by simp
next
  case (Cons x xs)
  then have ne: "cid \<noteq> x" and nin: "cid \<notin> set xs" by simp_all
  show ?case
  proof (cases "conns x")
    case None
    with Cons.prems(1) have
      "send_loop send_text ev limit xs (conns, n, failed @ [x]) = (conns', n', failed')" by simp
    from Cons.IH [OF this nin] ne show ?thesis by simp
  next
    case (Some info)
    show ?thesis
    proof (cases "send_text (websocket info) ev")
      case Sent
      with Some Cons.prems(1) have
        "send_loop send_text ev limit xs (conns(x \<mapsto> info\<lparr>failed_sends := 0\<rparr>), n + 1, failed)
           = (conns', n', failed')" by simp
      from Cons.IH [OF this nin] ne show ?thesis by simp
    next
      case WebSocketDisconnect
      with Some Cons.prems(1) have
        "send_loop send_text ev limit xs (conns, n, failed @ [x]) = (conns', n', failed')" by simp
      from Cons.IH [OF this nin] ne show ?thesis by simp
    next
      case SendError
      show ?thesis
      proof (cases "limit \<le> failed_sends info + 1")
        case True
        with SendError Some Cons.prems(1) have
          "send_loop send_text ev limit xs
             (conns(x \<mapsto> info\<lparr>failed_sends := failed_sends info + 1, is_alive := False\<rparr>), n, failed @ [x])
           = (conns', n', failed')"
          by (simp add: Let_def)
        from Cons.IH [OF this nin] ne show ?thesis by simp
      next
        case False
        with SendError Some Cons.prems(1) have
          "send_loop send_text ev limit xs
             (conns(x \<mapsto> info\<lparr>failed_sends := failed_sends info + 1\<rparr>), n, failed)
           = (conns', n', failed')"
          by (simp add: Let_def)
        from Cons.IH [OF this nin] ne show ?thesis by simp
      qed
    qed
  qed
qed

text \<open>What the first loop does to one connection of the list.\<close>

lemma send_loop_member:
  assumes "send_loop send_text ev limit xs (conns, n, failed) = (conns', n', failed')"
    and "distinct xs" and "cid \<in> set xs" and "cid \<notin> set failed"
    and "conns cid = Some info"
  shows "case send_text (websocket info) ev of
           Sent \<Rightarrow> conns' cid = Some (info\<lparr>failed_sends := 0\<rparr>) \<and> cid \<notin> set failed'
         | WebSocketDisconnect \<Rightarrow> conns' cid = Some info \<and> cid \<in> set failed'
         | SendError \<Rightarrow>
             if limit \<le> failed_sends info + 1
             then conns' cid = Some (info\<lparr>failed_sends := failed_sends info + 1, is_alive := False\<rparr>)
                  \<and> cid \<in> set failed'
             else conns' cid = Some (info\<lparr>failed_sends := failed_sends info + 1\<rparr>)
                  \<and> cid \<notin> set failed'"
  using assms
proof (induction xs arbitrary: conns n failed)
  case Nil
  then show ?case by simp
next
  case (Cons x xs)
  show ?case
  proof (cases "cid = x")
    case True
    with Cons.prems have nin: "cid \<notin> set xs" by simp
    show ?thesis
    proof (cases "send_text (websocket info) ev")
      case Sent
      with True Cons.prems have
        "send_loop send_text ev limit xs (conns(x \<mapsto> info\<lparr>failed_sends := 0\<rparr>), n + 1, failed)
           = (conns', n', failed')" by simp
      from send_loop_other [OF this nin] True Sent Cons.prems show ?thesis by simp
    next
      case WebSocketDisconnect
      with True Cons.prems have
        "send_loop send_text ev limit xs (conns, n, failed @ [x]) = (conns', n', failed')" by simp
      from send_loop_other [OF this nin] True WebSocketDisconnect Cons.prems show ?thesis by simp
    next
      case SendError
      show ?thesis
      proof (cases "limit \<le> failed_sends info + 1")
        case le: True
        with SendError True Cons.prems have
          "send_loop send_text ev limit xs
             (conns(x \<mapsto> info\<lparr>failed_sends := failed_sends info + 1, is_alive := False\<rparr>), n, failed @ [x])
           = (conns', n', failed')"
          by (simp add: Let_def)
        from send_loop_other [OF this nin] True SendError le show ?thesis by simp
      next
        case gt: False
        with SendError True Cons.prems have
          "send_loop send_text ev limit xs
             (conns(x \<mapsto> info\<lparr>failed_sends := failed_sends info + 1\<rparr>), n, failed)
           = (conns', n', failed')"
          by (simp add: Let_def)
        from send_loop_other [OF this nin] True SendError gt Cons.prems show ?thesis by simp
      qed
    qed
  next
    case False
    with Cons.prems have d: "distinct xs" and m: "cid \<in> set xs" by simp_all
    obtain conns1 n1 failed1 where step:
      "send_loop send_text ev limit [x] (conns, n, failed) = (conns1, n1, failed1)"
      by (cases "send_loop send_text ev limit [x] (conns, n, failed)") auto
    have "cid \<notin> set [x]" using False by simp
    from send_loop_other [OF step this] Cons.prems
    have c1: "conns1 cid = Some info" and f1: "cid \<notin> set failed1" by simp_all
    have "send_loop send_text ev limit (x # xs) (conns, n, failed)
            = send_loop send_text ev limit xs (conns1, n1, failed1)"
      using step by (auto simp: Let_def split: option.splits send_result.splits if_splits)
    with Cons.prems(1) have
      "send_loop send_text ev limit xs (conns1, n1, failed1) = (conns', n', failed')" by simp
    from Cons.IH [OF this d m f1 c1] show ?thesis .
  qed
qed


lemma sorted_list_of_fset_single: "sorted_list_of_fset {|x|} = [x]"
  by (simp add: sorted_list_of_fset.rep_eq)

lemma distinct_sorted_list_of_fset: "distinct (sorted_list_of_fset ids)"
  by (simp add: sorted_list_of_fset.rep_eq)

lemma consistent_one_connection: "consistent (one_connection n)"
  by (auto simp: consistent_def index_has_def one_connection_def ConnectionInfo_init_def
        split: if_splits)

text \<open>
  Claim C3 says that a transport-level disconnect increments the counter of failed sends
  and that a connection is removed only when the counter reaches 3. Here the only
  connection of a session, with no failed send so far, raises \<^verbatim>\<open>WebSocketDisconnect\<close> in
  a broadcast: it is removed from the table and from the index at once.
\<close>

theorem send_event_drops_at_once_counterexample:
  "connections (one_connection 0) ''c1''
     = Some \<lparr>websocket = 1, session_id = ''s1'', connected_at = 0, last_ping = 0,
             failed_sends = 0, is_alive = True\<rparr>
   \<and> max_failed_sends (one_connection 0) = 3
   \<and> session_connections (one_connection 0) ''s1'' = Some {|''c1''|}
   \<and> fst (send_event (one_connection 0) dropped_send ''s1'' token_event) = False
   \<and> connections (snd (send_event (one_connection 0) dropped_send ''s1'' token_event)) ''c1'' = None
   \<and> session_connections (snd (send_event (one_connection 0) dropped_send ''s1'' token_event)) ''s1''
       = None"
  by (simp add: send_event_def one_connection_def EnhancedConnectionManager_init_def
        ConnectionInfo_init_def sorted_list_of_fset_single dropped_send_def disconnect_def Let_def)

text \<open>
  Claim C3, amended. In a broadcast to a session of a consistent manager, for each
  connection listed under the session: a send that raises an exception other than
  \<^verbatim>\<open>WebSocketDisconnect\<close> increments the counter of failed sends of the connection, and
  the connection is removed from the table and from the index when the counter reaches
  \<open>max_failed_sends\<close> and stays registered, with the incremented counter, otherwise; a
  send that raises \<^verbatim>\<open>WebSocketDisconnect\<close> removes the connection from the table and from
  the index at once; a send that succeeds resets the counter to 0.
\<close>

theorem send_event_failed_sends:
  assumes "consistent self" and "session_connections self sid = Some ids" and "cid |\<in>| ids"
    and "connections self cid = Some info"
  shows "let self' = snd (send_event self send_text sid event)
         in case send_text (websocket info) (model_dump_json event) of
              Sent \<Rightarrow>
                connections self' cid = Some (info\<lparr>failed_sends := 0\<rparr>) \<and> index_has self' sid cid
            | WebSocketDisconnect \<Rightarrow>
                connections self' cid = None \<and> (\<forall>s. \<not> index_has self' s cid)
            | SendError \<Rightarrow>
                if max_failed_sends self \<le> failed_sends info + 1
                then connections self' cid = None \<and> (\<forall>s. \<not> index_has self' s cid)
                else connections self' cid = Some (info\<lparr>failed_sends := failed_sends info + 1\<rparr>)
                     \<and> index_has self' sid cid"
proof -
  let ?ev = "model_dump_json event"
  let ?xs = "sorted_list_of_fset ids"
  obtain conns n failed where l:
    "send_loop send_text ?ev (max_failed_sends self) ?xs (connections self, 0, []) = (conns, n, failed)"
    by (cases "send_loop send_text ?ev (max_failed_sends self) ?xs (connections self, 0, [])") auto
  let ?mid = "self\<lparr>connections := conns\<rparr>"
  let ?self' = "disconnect_all failed ?mid"
  have s: "snd (send_event self send_text sid event) = ?self'"
    using assms(2) l by (simp add: send_event_def)
  have c': "consistent ?self'"
    using assms(1) s consistent_send_event [of self send_text sid event] by simp
  have gone: "\<forall>s. \<not> index_has ?self' s cid" if "connections ?self' cid = None"
    using c' that unfolding consistent_def by blast
  have mem: "cid \<in> set ?xs" using assms(3) by simp
  have idx: "index_has ?mid sid cid"
    using assms(2,3) by (simp add: index_has_def)
  note m = send_loop_member [OF l distinct_sorted_list_of_fset mem _ assms(4), simplified]
  show ?thesis
  proof (cases "send_text (websocket info) ?ev")
    case Sent
    with m have "conns cid = Some (info\<lparr>failed_sends := 0\<rparr>)" and nf: "cid \<notin> set failed"
      by simp_all
    then have "connections ?self' cid = Some (info\<lparr>failed_sends := 0\<rparr>)"
      by (simp add: connections_disconnect_all)
    moreover have "index_has ?self' sid cid"
      using idx nf by (simp add: index_has_disconnect_all_other)
    ultimately show ?thesis using Sent s by simp
  next
    case WebSocketDisconnect
    with m have "cid \<in> set failed" by simp
    then have "connections ?self' cid = None" by (simp add: connections_disconnect_all)
    with gone show ?thesis using WebSocketDisconnect s by simp
  next
    case SendError
    show ?thesis
    proof (cases "max_failed_sends self \<le> failed_sends info + 1")
      case True
      with m SendError have "cid \<in> set failed" by simp
      then have "connections ?self' cid = None" by (simp add: connections_disconnect_all)
      with gone show ?thesis using SendError True s by simp
    next
      case False
      with m SendError have "conns cid = Some (info\<lparr>failed_sends := failed_sends info + 1\<rparr>)"
        and nf: "cid \<notin> set failed" by simp_all
      then have "connections ?self' cid = Some (info\<lparr>failed_sends := failed_sends info + 1\<rparr>)"
        by (simp add: connections_disconnect_all)
      moreover have "index_has ?self' sid cid"
        using idx nf by (simp add: index_has_disconnect_all_other)
      ultimately show ?thesis using SendError False s by simp
    qed
  qed
qed

theorem send_event_failed_sends_witness:
  "consistent (one_connection 2) \<and> consistent (one_connection 0)
   \<and> session_connections (one_connection 2) ''s1'' = Some {|''c1''|}
   \<and> ''c1'' |\<in>| {|''c1''|}
   \<and> connections (snd (send_event (one_connection 2) failing_send ''s1'' token_event)) ''c1'' = None
   \<and> \<not> index_has (snd (send_event (one_connection 2) failing_send ''s1'' token_event)) ''s1'' ''c1''
   \<and> connections (snd (send_event (one_connection 0) failing_send ''s1'' token_event)) ''c1''
       = Some \<lparr>websocket = 1, session_id = ''s1'', connected_at = 0, last_ping = 0,
               failed_sends = 1, is_alive = True\<rparr>
   \<and> index_has (snd (send_event (one_connection 0) failing_send ''s1'' token_event)) ''s1'' ''c1''"
proof -
  have s: "session_connections (one_connection n) ''s1'' = Some {|''c1''|}" for n
    by (simp add: one_connection_def)
  have m: "''c1'' |\<in>| {|''c1''|}" by simp
  have c: "connections (one_connection n) ''c1''
             = Some \<lparr>websocket = 1, session_id = ''s1'', connected_at = 0, last_ping = 0,
                     failed_sends = n, is_alive = True\<rparr>" for n
    by (simp add: one_connection_def ConnectionInfo_init_def)
  have x: "max_failed_sends (one_connection n) = 3" for n
    by (simp add: one_connection_def EnhancedConnectionManager_init_def)
  from send_event_failed_sends [OF consistent_one_connection s m c, of 2 failing_send token_event]
       send_event_failed_sends [OF consistent_one_connection s m c, of 0 failing_send token_event]
  show ?thesis
    using consistent_one_connection s
    by (simp add: failing_send_def x Let_def)
qed

subsection \<open>The session index and the connection table\<close>

lemma consistent_init: "consistent EnhancedConnectionManager_init"
  by (simp add: consistent_def index_has_def EnhancedConnectionManager_init_def)

lemma no_empty_entry_init: "no_empty_entry EnhancedConnectionManager_init"
  by (simp add: no_empty_entry_def EnhancedConnectionManager_init_def)

lemma no_empty_entry_one_connection: "no_empty_entry (one_connection n)"
  by (simp add: no_empty_entry_def one_connection_def)

text \<open>
  Claim C9. Each of \<open>connect\<close>, \<open>disconnect\<close> and \<open>send_event\<close> preserves the
  consistency of the session index with the connection table: every connection id listed
  in an entry of the index is in the table, and every connection id of the table is
  listed in the entry of its own session and in no other. For \<open>connect\<close> the id drawn by
  \<^verbatim>\<open>uuid4()\<close> is taken to be new to the table.
\<close>

theorem operations_preserve_consistency:
  assumes "consistent self"
  shows "(uuid \<notin> dom (connections self) \<longrightarrow>
            consistent (snd (connect self accepted uuid now ws sid)))
         \<and> consistent (disconnect self connection_id)
         \<and> consistent (snd (send_event self send_text sid' event))"
  using assms
  by (simp add: consistent_connect consistent_disconnect consistent_send_event)

theorem operations_preserve_consistency_witness:
  "consistent (one_connection 0)
   \<and> ''c2'' \<notin> dom (connections (one_connection 0))
   \<and> consistent (snd (connect (one_connection 0) None ''c2'' 5 2 ''s1''))
   \<and> consistent (disconnect (one_connection 0) ''c1'')
   \<and> consistent (snd (send_event (one_connection 0) failing_send ''s1'' token_event))"
proof -
  have f: "''c2'' \<notin> dom (connections (one_connection 0))"
    by (simp add: one_connection_def)
  from operations_preserve_consistency
         [OF consistent_one_connection, of "''c2''" 0 None 5 2 "''s1''" "''c1''" failing_send "''s1''" token_event]
  show ?thesis
    using f consistent_one_connection by simp
qed

text \<open>
  Claim C10. Each of \<open>connect\<close>, \<open>disconnect\<close> and \<open>send_event\<close> preserves that every
  session id present in the session index maps to a set of connection ids that is not
  empty, which holds of the initial manager (\<open>no_empty_entry_init\<close>); and for a session
  absent from the index \<open>send_event\<close> returns false and changes nothing.
\<close>

theorem operations_keep_entries_nonempty:
  assumes "no_empty_entry self"
  shows "no_empty_entry (snd (connect self accepted uuid now ws sid))
         \<and> no_empty_entry (disconnect self connection_id)
         \<and> no_empty_entry (snd (send_event self send_text sid' event))
         \<and> (session_connections self sid' = None \<longrightarrow>
               send_event self send_text sid' event = (False, self))"
proof -
  have "send_event self send_text sid' event = (False, self)"
    if "session_connections self sid' = None"
    using that by (simp add: send_event_def)
  with assms show ?thesis
    by (simp add: no_empty_entry_connect no_empty_entry_disconnect no_empty_entry_send_event)
qed

theorem operations_keep_entries_nonempty_witness:
  "no_empty_entry (one_connection 0)
   \<and> no_empty_entry (snd (connect (one_connection 0) None ''c2'' 5 2 ''s2''))
   \<and> no_empty_entry (disconnect (one_connection 0) ''c1'')
   \<and> session_connections (disconnect (one_connection 0) ''c1'') ''s1'' = None
   \<and> no_empty_entry (snd (send_event (one_connection 0) dropped_send ''s1'' token_event))
   \<and> session_connections (one_connection 0) ''s2'' = None
   \<and> send_event (one_connection 0) dropped_send ''s2'' token_event = (False, one_connection 0)"
proof -
  have a: "session_connections (one_connection 0) ''s2'' = None"
    by (simp add: one_connection_def)
  have b: "session_connections (disconnect (one_connection 0) ''c1'') ''s1'' = None"
    by (simp add: one_connection_def disconnect_def ConnectionInfo_init_def Let_def)
  from operations_keep_entries_nonempty
         [OF no_empty_entry_one_connection, of 0 None "''c2''" 5 2 "''s2''" "''c1''" dropped_send "''s1''" token_event]
       operations_keep_entries_nonempty
         [OF no_empty_entry_one_connection, of 0 None "''c2''" 5 2 "''s2''" "''c1''" dropped_send "''s2''" token_event]
  show ?thesis
    using a b no_empty_entry_one_connection by simp
qed

end
